theory Spec2Isabelle
  imports Main
begin

section \<open>JavaScript strings and optional values\<close>

text \<open>
  A JavaScript string is modelled as a list of characters, one per code unit; the
  characters of this development are the code units U+0000 to U+00FF. An optional
  string (\<open>string | undefined\<close>, or the \<open>string | null\<close> of \<open>getAttribute\<close>) is a
  \<open>string option\<close>. A value is falsy when it is absent or the empty string.
\<close>

definition truthy :: "string option \<Rightarrow> bool" where
  "truthy v = (case v of None \<Rightarrow> False | Some s \<Rightarrow> s \<noteq> [])"

text \<open>The operator \<open>a || b\<close> on optional strings: \<open>a\<close> when it is truthy, else \<open>b\<close>.\<close>

definition orElse :: "string option \<Rightarrow> string option \<Rightarrow> string option" where
  "orElse a b = (if truthy a then a else b)"

text \<open>
  The class \<open>\s\<close> of regular expressions, which is also what \<open>trim\<close> strips: tab, line
  feed, vertical tab, form feed, carriage return, space and no-break space.
\<close>

definition isSpace :: "char \<Rightarrow> bool" where
  "isSpace c = (c \<in> set [CHR 0x09, CHR 0x0A, CHR 0x0B, CHR 0x0C, CHR 0x0D, CHR 0x20, CHR 0xA0])"

definition trim :: "string \<Rightarrow> string" where
  "trim s = rev (dropWhile isSpace (rev (dropWhile isSpace s)))"

text \<open>
  \<open>s.replace(/C+/g, r)\<close> for a character class \<open>C\<close>: every maximal run of characters of
  the class becomes the single character \<open>r\<close>.
\<close>

function replaceRuns :: "(char \<Rightarrow> bool) \<Rightarrow> char \<Rightarrow> string \<Rightarrow> string" where
  "replaceRuns p r [] = []"
| "replaceRuns p r (x # xs) =
     (if p x then r # replaceRuns p r (dropWhile p xs) else x # replaceRuns p r xs)"
  by pat_completeness auto
termination
  by (relation "measure (\<lambda>(p, r, xs). length xs)")
     (auto simp: length_dropWhile_le less_Suc_eq_le)

text \<open>\<open>s.slice(0, n)\<close>: the first \<open>n\<close> code units.\<close>

definition slice0 :: "nat \<Rightarrow> string \<Rightarrow> string" where
  "slice0 n s = take n s"

text \<open>
  \<open>s.toLowerCase()\<close>: the letters A to Z and the upper-case letters of U+00C0 to
  U+00DE (the multiplication sign U+00D7 is not one) move up by 32.
\<close>

definition toLowerChar :: "char \<Rightarrow> char" where
  "toLowerChar c =
     (let n = (of_char c :: nat)
      in if (65 \<le> n \<and> n \<le> 90) \<or> (192 \<le> n \<and> n \<le> 222 \<and> n \<noteq> 215)
         then char_of (n + 32) else c)"

definition toLowerCase :: "string \<Rightarrow> string" where
  "toLowerCase s = map toLowerChar s"

text \<open>\<open>String(n)\<close> for an array index or a sibling count: the decimal digits.\<close>

definition digitChar :: "nat \<Rightarrow> char" where
  "digitChar d = ''0123456789'' ! d"

fun numberToString :: "nat \<Rightarrow> string" where
  "numberToString n =
     (if n < 10 then [digitChar n] else numberToString (n div 10) @ [digitChar (n mod 10)])"

declare numberToString.simps [simp del]

text \<open>\<open>String(v)\<close> for an optional string: the text \<open>undefined\<close> when it is absent.\<close>

definition stringOf :: "string option \<Rightarrow> string" where
  "stringOf v = (case v of None \<Rightarrow> ''undefined'' | Some s \<Rightarrow> s)"

section \<open>Report and model types\<close>

datatype ReconElementType = RButton | RLink | RInput | RSelect | RTextarea | ROther

text \<open>The text of a type, as a template literal interpolates it.\<close>

fun typeName :: "ReconElementType \<Rightarrow> string" where
  "typeName RButton = ''button''"
| "typeName RLink = ''link''"
| "typeName RInput = ''input''"
| "typeName RSelect = ''select''"
| "typeName RTextarea = ''textarea''"
| "typeName ROther = ''other''"

record ReconElement =
  el_type :: ReconElementType
  el_tagName :: string
  el_role :: "string option"
  el_accessibleName :: "string option"
  el_labelText :: "string option"
  el_testId :: "string option"
  el_text :: "string option"
  el_id :: "string option"
  el_name :: "string option"
  el_href :: "string option"
  el_placeholder :: "string option"
  el_ariaLabel :: "string option"
  el_disabled :: "bool option"
  el_ariaDisabled :: "bool option"
  el_typeAttr :: "string option"
  el_value :: "string option"
  el_css :: "string option"
  el_xpath :: "string option"

record ReconReport =
  rr_url :: string
  rr_scannedAt :: string
  rr_counts :: "ReconElementType \<rightharpoonup> nat"
  rr_elements :: "ReconElement list"

datatype ElementKind =
  KButton | KLink | KTextbox | KCheckbox | KRadio | KSelect | KTextarea | KOther

text \<open>
  A locator hint. The value of a label hint is \<open>safeName(labelText)!\<close>, which is
  \<open>undefined\<close> at run time when the label text is blank, so it is optional here.
\<close>

datatype LocatorHint =
    TestIdHint string
  | RoleHint string "string option"
  | LabelHint "string option"
  | PlaceholderHint string
  | CssHint string
  | XpathHint string

fun strategy :: "LocatorHint \<Rightarrow> string" where
  "strategy (TestIdHint v) = ''testId''"
| "strategy (RoleHint r n) = ''role''"
| "strategy (LabelHint v) = ''label''"
| "strategy (PlaceholderHint v) = ''placeholder''"
| "strategy (CssHint v) = ''css''"
| "strategy (XpathHint v) = ''xpath''"

record Flags =
  fl_disabled :: "bool option"
  fl_ariaDisabled :: "bool option"

record ElementModel =
  em_id :: string
  em_kind :: ElementKind
  em_name :: "string option"
  em_tagName :: "string option"
  em_role :: "string option"
  em_href :: "string option"
  em_locators :: "LocatorHint list"
  em_flags :: "Flags option"

record PageModel =
  pm_url :: string
  pm_domain :: string
  pm_scannedAt :: string
  pm_title :: "string option"
  pm_elements :: "ElementModel list"

text \<open>
  The platform's \<open>URL\<close> class is not part of the repository. The builder reads the
  host name of a parsed URL only, and the constructor either returns an object or throws
  a \<open>TypeError\<close>; the constructor is therefore a parameter \<open>parseURL\<close> of the
  functions that call it, with \<open>None\<close> for the throw.
\<close>

record URL =
  hostname :: string

datatype error = InvalidURL string

section \<open>The page model builder\<close>

definition normalizeWhitespace :: "string \<Rightarrow> string" where
  "normalizeWhitespace s = replaceRuns isSpace (CHR '' '') (trim s)"

definition safeName :: "string option \<Rightarrow> string option" where
  "safeName s =
     (case s of
        None \<Rightarrow> None
      | Some t \<Rightarrow>
          if t = [] then None
          else let v = normalizeWhitespace t
               in if length v \<noteq> 0 then Some (slice0 80 v) else None)"

definition stripWww :: "string \<Rightarrow> string" where
  \<comment> \<open>\<open>h.replace(/^www\\./, "")\<close>\<close>
  "stripWww h = (if take 4 h = ''www.'' then drop 4 h else h)"

definition domainFromUrl :: "(string \<Rightarrow> URL option) \<Rightarrow> string \<Rightarrow> error + string" where
  "domainFromUrl parseURL url =
     (case parseURL url of
        None \<Rightarrow> Inl (InvalidURL url)
      | Some u \<Rightarrow> Inr (stripWww (hostname u)))"

fun kindFromRecon :: "ReconElement \<Rightarrow> ElementKind" where
  "kindFromRecon el =
     (case el_type el of
        RButton \<Rightarrow> KButton
      | RLink \<Rightarrow> KLink
      | RInput \<Rightarrow> KTextbox
      | RSelect \<Rightarrow> KSelect
      | RTextarea \<Rightarrow> KTextarea
      | ROther \<Rightarrow> KOther)"

definition buildName :: "ReconElement \<Rightarrow> string option" where
  "buildName el =
     orElse (orElse (orElse (orElse (orElse
       (safeName (el_accessibleName el))
       (safeName (el_labelText el)))
       (safeName (el_ariaLabel el)))
       (safeName (el_name el)))
       (safeName (el_id el)))
       (safeName (el_text el))"

text \<open>\<open>if (v) locators.push(h)\<close>: the hint is pushed when the guard is truthy.\<close>

definition pushIf :: "string option \<Rightarrow> (string \<Rightarrow> LocatorHint) \<Rightarrow> LocatorHint list" where
  "pushIf v h = (case v of None \<Rightarrow> [] | Some s \<Rightarrow> if s = [] then [] else [h s])"

text \<open>The final filter: a role hint needs a role, every other hint a value.\<close>

fun keepHint :: "LocatorHint \<Rightarrow> bool" where
  "keepHint (RoleHint r n) = (r \<noteq> [])"
| "keepHint (TestIdHint v) = (v \<noteq> [])"
| "keepHint (LabelHint v) = truthy v"
| "keepHint (PlaceholderHint v) = (v \<noteq> [])"
| "keepHint (CssHint v) = (v \<noteq> [])"
| "keepHint (XpathHint v) = (v \<noteq> [])"

definition buildLocators :: "ReconElement \<Rightarrow> LocatorHint list" where
  "buildLocators el =
     filter keepHint
       (pushIf (el_testId el) TestIdHint
        @ pushIf (el_role el) (\<lambda>role. RoleHint role (safeName (el_accessibleName el)))
        @ pushIf (el_labelText el) (\<lambda>labelText. LabelHint (safeName (Some labelText)))
        @ pushIf (el_placeholder el) PlaceholderHint
        @ pushIf (el_css el) CssHint
        @ pushIf (el_xpath el) XpathHint)"

text \<open>The class \<open>[a-z0-9]\<close>, and the hyphen.\<close>

definition isLowerAlnum :: "char \<Rightarrow> bool" where
  "isLowerAlnum c =
     (let n = (of_char c :: nat) in (97 \<le> n \<and> n \<le> 122) \<or> (48 \<le> n \<and> n \<le> 57))"

definition isHyphen :: "char \<Rightarrow> bool" where
  "isHyphen c = (c = CHR ''-'')"

definition stripHyphens :: "string \<Rightarrow> string" where
  \<comment> \<open>\<open>s.replace(/^-+|-+$/g, "")\<close>\<close>
  "stripHyphens s = rev (dropWhile isHyphen (rev (dropWhile isHyphen s)))"

text \<open>
  The two constants of \<open>stableElementId\<close>: \<open>slug\<close> as a function of the base, and
  \<open>base\<close>, whose last alternative is the template \<open>element-${index}\<close>.
\<close>

definition slugOf :: "string \<Rightarrow> string" where
  "slugOf base =
     slice0 50
       (stripHyphens
         (replaceRuns (\<lambda>c. \<not> isLowerAlnum c) (CHR ''-'')
           (toLowerCase (normalizeWhitespace base))))"

definition baseOf :: "ReconElement \<Rightarrow> nat \<Rightarrow> string option" where
  "baseOf el index =
     orElse (orElse (orElse (orElse (orElse (orElse
       (el_testId el)
       (el_id el))
       (el_name el))
       (el_ariaLabel el))
       (el_text el))
       (Some (el_tagName el)))
       (Some (''element-'' @ numberToString index))"

definition stableElementId :: "ReconElement \<Rightarrow> nat \<Rightarrow> string" where
  "stableElementId el index =
     (let slug = slugOf (stringOf (baseOf el index))
      in typeName (el_type el) @ ''-'' @ (if slug = [] then ''unnamed'' else slug)
         @ ''-'' @ numberToString index)"

text \<open>The callback that \<open>buildPageModel\<close> maps over the elements and their indices.\<close>

definition elementModel :: "ReconElement \<Rightarrow> nat \<Rightarrow> ElementModel" where
  "elementModel el index =
     \<lparr> em_id = stableElementId el index,
       em_kind = kindFromRecon el,
       em_name = buildName el,
       em_tagName = Some (el_tagName el),
       em_role = el_role el,
       em_href = (if el_type el = RLink then el_href el else None),
       em_locators = buildLocators el,
       em_flags = Some \<lparr> fl_disabled = el_disabled el, fl_ariaDisabled = el_ariaDisabled el \<rparr> \<rparr>"

definition buildPageModel ::
  "(string \<Rightarrow> URL option) \<Rightarrow> ReconReport \<Rightarrow> string option \<Rightarrow> error + PageModel" where
  "buildPageModel parseURL report title =
     (case domainFromUrl parseURL (rr_url report) of
        Inl e \<Rightarrow> Inl e
      | Inr domain \<Rightarrow>
          Inr \<lparr> pm_url = rr_url report,
                pm_domain = domain,
                pm_scannedAt = rr_scannedAt report,
                pm_title = title,
                pm_elements =
                  map (\<lambda>(index, el). elementModel el index) (enumerate 0 (rr_elements report)) \<rparr>)"

section \<open>The scanner\<close>

subsection \<open>Page context: one record per candidate node\<close>

text \<open>
  What the page-context code reads of a candidate element: its tag name, its attributes
  (\<open>getAttribute\<close>), its text content, its \<open>disabled\<close> property, the text content of
  the first \<open>label\<close> whose \<open>for\<close> is the node's id and of the closest enclosing
  \<open>label\<close> (absent when there is no such label), and for the positional XPath the tag
  names of the preceding element siblings of the node and of each ancestor, parent first.
\<close>

record Node =
  nd_tagName :: string
  nd_attrs :: "string \<rightharpoonup> string"
  nd_textContent :: "string option"
  nd_disabledProp :: bool
  nd_labelFor :: "string option"
  nd_closestLabel :: "string option"
  nd_prevSiblings :: "string list"
  nd_ancestors :: "(string \<times> string list) list"

record RawEl =
  raw_tag :: string
  raw_role :: "string option"
  raw_typeAttr :: "string option"
  raw_value :: "string option"
  raw_text :: "string option"
  raw_id :: "string option"
  raw_name :: "string option"
  raw_href :: "string option"
  raw_placeholder :: "string option"
  raw_ariaLabel :: "string option"
  raw_ariaDisabled :: "bool option"
  raw_disabled :: "bool option"
  raw_testId :: "string option"
  raw_labelText :: "string option"
  raw_accessibleName :: "string option"
  raw_css :: "string option"
  raw_xpath :: "string option"

definition getAttribute :: "Node \<Rightarrow> string \<Rightarrow> string option" where
  "getAttribute e a = nd_attrs e a"

text \<open>\<open>v || undefined\<close>: a falsy value becomes absent.\<close>

definition orUndefined :: "string option \<Rightarrow> string option" where
  "orUndefined v = (if truthy v then v else None)"

definition isDisabled :: "Node \<Rightarrow> bool \<times> bool" where
  "isDisabled e =
     (let disabled = (nd_disabledProp e \<or> getAttribute e ''disabled'' \<noteq> None);
          ariaDisabled = (getAttribute e ''aria-disabled'' = Some ''true'')
      in (disabled, ariaDisabled))"

definition getText :: "Node \<Rightarrow> string option" where
  "getText e =
     (let txt = replaceRuns isSpace (CHR '' '') (trim (stringOf (orElse (nd_textContent e) (Some []))))
      in if txt \<noteq> [] then Some (slice0 200 txt) else None)"

definition cssEscape :: "string \<Rightarrow> string" where
  "cssEscape v =
     concat (map (\<lambda>c. if c \<in> set [CHR 0x22, CHR 0x5C, CHR ''.'', CHR ''#'', CHR '':'', CHR ''['', CHR '']'']
                       then [CHR 0x5C, c] else [c]) v)"

definition bestCss :: "Node \<Rightarrow> string" where
  "bestCss e =
     (let tag = toLowerCase (nd_tagName e);
          testId = orElse (orElse (getAttribute e ''data-testid'') (getAttribute e ''data-test''))
                     (getAttribute e ''data-test-id'');
          id = getAttribute e ''id'';
          name = getAttribute e ''name'';
          ariaLabel = getAttribute e ''aria-label''
      in if truthy testId then
           ''[data-testid='' @ [CHR 0x22] @ cssEscape (stringOf testId) @ [CHR 0x22] @ ''], [data-test=''
           @ [CHR 0x22] @ cssEscape (stringOf testId) @ [CHR 0x22] @ ''], [data-test-id=''
           @ [CHR 0x22] @ cssEscape (stringOf testId) @ [CHR 0x22] @ '']''
         else if truthy id then ''#'' @ cssEscape (stringOf id)
         else if truthy name then
           tag @ ''[name='' @ [CHR 0x22] @ cssEscape (stringOf name) @ [CHR 0x22] @ '']''
         else if truthy ariaLabel then
           tag @ ''[aria-label='' @ [CHR 0x22] @ cssEscape (stringOf ariaLabel) @ [CHR 0x22] @ '']''
         else tag)"

text \<open>
  One step of the positional path: the lower-cased tag and one plus the number of
  preceding siblings with the same lower-cased tag.
\<close>

definition xpathPart :: "string \<times> string list \<Rightarrow> string" where
  "xpathPart n =
     (let tag = toLowerCase (fst n);
          index = 1 + length (filter (\<lambda>sibling. toLowerCase sibling = tag) (snd n))
      in tag @ ''['' @ numberToString index @ '']'')"

fun joinWith :: "string \<Rightarrow> string list \<Rightarrow> string" where
  "joinWith sep [] = []"
| "joinWith sep [p] = p"
| "joinWith sep (p # q # ps) = p @ sep @ joinWith sep (q # ps)"

definition xpathFor :: "Node \<Rightarrow> string" where
  "xpathFor e =
     (let id = getAttribute e ''id''
      in if truthy id then ''//*[@id='' @ [CHR 0x22] @ stringOf id @ [CHR 0x22] @ '']''
         else ''/'' @ joinWith ''/''
                (rev (map xpathPart ((nd_tagName e, nd_prevSiblings e) # nd_ancestors e))))"

definition labelTextOf :: "string option \<Rightarrow> string option" where
  \<comment> \<open>\<open>t = lbl?.textContent?.trim(); if (t) return t.replace(/\\s+/g, " ").slice(0, 200)\<close>\<close>
  "labelTextOf lbl =
     (case lbl of
        None \<Rightarrow> None
      | Some c \<Rightarrow>
          let t = trim c
          in if t \<noteq> [] then Some (slice0 200 (replaceRuns isSpace (CHR '' '') t)) else None)"

definition findAssociatedLabelText :: "Node \<Rightarrow> string option" where
  "findAssociatedLabelText e =
     (let id = getAttribute e ''id'';
          byId = (if truthy id then labelTextOf (nd_labelFor e) else None)
      in if byId \<noteq> None then byId else labelTextOf (nd_closestLabel e))"

definition accessibleName :: "Node \<Rightarrow> string option" where
  "accessibleName e =
     (let tag = toLowerCase (nd_tagName e);
          aria = getAttribute e ''aria-label''
      in if truthy aria then aria
         else let label = findAssociatedLabelText e
         in if truthy label then label
         else let v = (if tag = ''input''
                       then let t = toLowerCase (stringOf (orElse (getAttribute e ''type'') (Some ''text'')))
                            in if t = ''submit'' \<or> t = ''button'' \<or> t = ''reset''
                               then getAttribute e ''value'' else None
                       else None)
         in if truthy v then v
         else let alt = getAttribute e ''alt''
         in if truthy alt then alt
         else getText e)"

text \<open>The record the page-context code returns for a candidate node.\<close>

definition rawOf :: "Node \<Rightarrow> RawEl" where
  "rawOf e =
     (let tag = toLowerCase (nd_tagName e);
          role = orUndefined (getAttribute e ''role'');
          typeAttr = (if tag = ''input'' then orElse (getAttribute e ''type'') (Some ''text'') else None);
          (disabled, ariaDisabled) = isDisabled e;
          testId = orUndefined (orElse (orElse (getAttribute e ''data-testid'')
                     (getAttribute e ''data-test'')) (getAttribute e ''data-test-id''));
          href = (if tag = ''a'' then orUndefined (getAttribute e ''href'') else None);
          placeholder = (if tag = ''input'' \<or> tag = ''textarea''
                         then orUndefined (getAttribute e ''placeholder'') else None);
          value = (if tag = ''input'' then orUndefined (getAttribute e ''value'') else None);
          labelText = findAssociatedLabelText e
      in \<lparr> raw_tag = tag,
           raw_role = role,
           raw_typeAttr = typeAttr,
           raw_value = value,
           raw_text = getText e,
           raw_id = orUndefined (getAttribute e ''id''),
           raw_name = orUndefined (getAttribute e ''name''),
           raw_href = href,
           raw_placeholder = placeholder,
           raw_ariaLabel = orUndefined (getAttribute e ''aria-label''),
           raw_ariaDisabled = Some ariaDisabled,
           raw_disabled = Some disabled,
           raw_testId = testId,
           raw_labelText = labelText,
           raw_accessibleName = accessibleName e,
           raw_css = Some (bestCss e),
           raw_xpath = Some (xpathFor e) \<rparr>)"

subsection \<open>Node context: from raw records to the report\<close>

definition INTERACTIVE_ROLES :: "string list" where
  "INTERACTIVE_ROLES =
     [''button'', ''link'', ''textbox'', ''checkbox'', ''radio'', ''switch'', ''combobox'',
      ''listbox'', ''option'', ''menuitem'', ''tab'', ''slider'', ''spinbutton'']"

definition normalizeType :: "RawEl \<Rightarrow> ReconElementType" where
  "normalizeType raw =
     (let role = map_option toLowerCase (raw_role raw);
          tag = toLowerCase (raw_tag raw);
          inputType = map_option toLowerCase (raw_typeAttr raw)
      in if truthy role \<and> stringOf role \<in> set INTERACTIVE_ROLES then
           (if role = Some ''textbox'' then RInput
            else if role = Some ''combobox'' \<or> role = Some ''listbox'' then RSelect
            else if role = Some ''link'' then RLink
            else if role = Some ''button'' then RButton
            else ROther)
         else if tag = ''button'' then RButton
         else if tag = ''a'' \<and> truthy (raw_href raw) then RLink
         else if tag = ''select'' then RSelect
         else if tag = ''textarea'' then RTextarea
         else if tag = ''input'' then
           (if inputType = Some ''button'' \<or> inputType = Some ''submit'' \<or> inputType = Some ''reset''
            then RButton else RInput)
         else ROther)"

text \<open>
  The callback that converts a raw record to a report element. Its object literal has no
  \<open>disabled\<close> and no \<open>ariaDisabled\<close> key, so both are absent in the result.
\<close>

definition reconElementOf :: "RawEl \<Rightarrow> ReconElement" where
  "reconElementOf r =
     \<lparr> el_type = normalizeType r,
       el_tagName = raw_tag r,
       el_role = raw_role r,
       el_accessibleName = raw_accessibleName r,
       el_labelText = raw_labelText r,
       el_testId = raw_testId r,
       el_text = raw_text r,
       el_id = raw_id r,
       el_name = raw_name r,
       el_href = (if raw_tag r = ''a'' then raw_href r else None),
       el_placeholder = raw_placeholder r,
       el_ariaLabel = raw_ariaLabel r,
       el_disabled = None,
       el_ariaDisabled = None,
       el_typeAttr = raw_typeAttr r,
       el_value = raw_value r,
       el_css = raw_css r,
       el_xpath = raw_xpath r \<rparr>"

text \<open>\<open>m[k] ?? 0\<close> on a counts object.\<close>

definition countOr0 :: "(ReconElementType \<rightharpoonup> nat) \<Rightarrow> ReconElementType \<Rightarrow> nat" where
  "countOr0 m k = (case m k of None \<Rightarrow> 0 | Some c \<Rightarrow> c)"

definition tally :: "ReconElement list \<Rightarrow> (ReconElementType \<rightharpoonup> nat)" where
  \<comment> \<open>the \<open>reduce\<close> over the elements, from the empty object\<close>
  "tally elements = fold (\<lambda>e acc. acc(el_type e \<mapsto> countOr0 acc (el_type e) + 1)) elements Map.empty"

definition allTypes :: "ReconElementType list" where
  "allTypes = [RButton, RLink, RInput, RSelect, RTextarea, ROther]"

definition fillZeros :: "(ReconElementType \<rightharpoonup> nat) \<Rightarrow> (ReconElementType \<rightharpoonup> nat)" where
  \<comment> \<open>\<open>for (const t of allTypes) counts[t] = counts[t] ?? 0\<close>\<close>
  "fillZeros counts = fold (\<lambda>t c. c(t \<mapsto> countOr0 c t)) allTypes counts"

text \<open>
  \<open>scanUrl\<close> from the point where the visible candidate nodes have been selected (the
  list \<open>filtered\<close>): \<open>scannedAt\<close> is the clock reading, \<open>nodes\<close> the candidates in
  document order. Launching the browser, navigation and the selection of candidates by
  computed style and geometry are not modelled.
\<close>

definition scanUrl :: "string \<Rightarrow> string \<Rightarrow> Node list \<Rightarrow> ReconReport" where
  "scanUrl url scannedAt nodes =
     (let rawElements = map rawOf nodes;
          elements = map reconElementOf rawElements;
          counts = fillZeros (tally elements)
      in \<lparr> rr_url = url, rr_scannedAt = scannedAt, rr_counts = counts, rr_elements = elements \<rparr>)"

subsection \<open>The earlier revision of the scanner\<close>

text \<open>
  The repository holds two revisions of the scanner. The definitions above follow the
  later one, which records the type and value attributes of inputs. The two functions
  below are those of the earlier revision where it differs: its \<open>normalizeType\<close> reads
  the input type and does not use it, and its \<open>accessibleName\<close> has no value step.
\<close>

definition normalizeType_early :: "RawEl \<Rightarrow> ReconElementType" where
  "normalizeType_early raw =
     (let role = map_option toLowerCase (raw_role raw);
          tag = toLowerCase (raw_tag raw);
          inputType = map_option toLowerCase (raw_typeAttr raw)
      in if truthy role \<and> stringOf role \<in> set INTERACTIVE_ROLES then
           (if role = Some ''textbox'' then RInput
            else if role = Some ''combobox'' \<or> role = Some ''listbox'' then RSelect
            else if role = Some ''link'' then RLink
            else if role = Some ''button'' then RButton
            else ROther)
         else if tag = ''button'' then RButton
         else if tag = ''a'' \<and> truthy (raw_href raw) then RLink
         else if tag = ''select'' then RSelect
         else if tag = ''textarea'' then RTextarea
         else if tag = ''input'' then RInput
         else ROther)"

definition accessibleName_early :: "Node \<Rightarrow> string option" where
  "accessibleName_early e =
     orElse (orElse (orElse
       (getAttribute e ''aria-label'')
       (findAssociatedLabelText e))
       (orUndefined (getAttribute e ''alt'')))
       (getText e)"

section \<open>Notions used in the statements\<close>

text \<open>The first truthy value of a list of optional strings, absent when there is none.\<close>

fun firstAvailable :: "string option list \<Rightarrow> string option" where
  "firstAvailable [] = None"
| "firstAvailable (v # vs) = (if truthy v then v else firstAvailable vs)"

text \<open>
  The tokens of a string for a class of separators: its maximal runs of characters
  outside the class, in order. For white space as the separators they are the words.
\<close>

function tokens :: "(char \<Rightarrow> bool) \<Rightarrow> string \<Rightarrow> string list" where
  "tokens p s =
     (case dropWhile p s of
        [] \<Rightarrow> []
      | x # xs \<Rightarrow> (x # takeWhile (\<lambda>c. \<not> p c) xs) # tokens p (dropWhile (\<lambda>c. \<not> p c) xs))"
  by pat_completeness auto
termination
proof (relation "measure (\<lambda>(p, s). length s)")
  show "wf (measure (\<lambda>(p, s). length s))" by simp
next
  fix p :: "char \<Rightarrow> bool" and s :: string and x xs
  assume "dropWhile p s = x # xs"
  then have "Suc (length xs) \<le> length s"
    using length_dropWhile_le [of p s] by simp
  moreover have "length (dropWhile (\<lambda>c. \<not> p c) xs) \<le> length xs"
    by (rule length_dropWhile_le)
  ultimately show "((p, dropWhile (\<lambda>c. \<not> p c) xs), (p, s)) \<in> measure (\<lambda>(p, s). length s)"
    by simp
qed

declare tokens.simps [simp del]

text \<open>The strings of a list written one after the other with one separator between them.\<close>

fun joinChar :: "char \<Rightarrow> string list \<Rightarrow> string" where
  "joinChar r [] = []"
| "joinChar r [w] = w"
| "joinChar r (w # v # ws) = w @ r # joinChar r (v # ws)"

text \<open>
  A naming signal is present when it is there and has a character that is not white
  space. The display name the specification describes is the first present signal,
  cleaned: its words with single spaces between them, cut to 80 characters.
\<close>

definition present :: "string option \<Rightarrow> bool" where
  "present v = (case v of None \<Rightarrow> False | Some t \<Rightarrow> \<exists>c \<in> set t. \<not> isSpace c)"

definition cleaned :: "string \<Rightarrow> string" where
  "cleaned t = take 80 (joinChar (CHR '' '') (tokens isSpace t))"

definition firstPresentName :: "string option list \<Rightarrow> string option" where
  "firstPresentName vs = (case filter present vs of [] \<Rightarrow> None | v # _ \<Rightarrow> map_option cleaned v)"

text \<open>
  The slug the specification describes: the words of the base with single spaces between
  them, in lower case; of that, the maximal runs of the letters a to z and the digits,
  with single hyphens between them; of that, the first 50 characters.
\<close>

definition slugLetter :: "char \<Rightarrow> bool" where
  "slugLetter c = (c \<in> set ''abcdefghijklmnopqrstuvwxyz0123456789'')"

definition slugSpec :: "string \<Rightarrow> string" where
  "slugSpec b =
     take 50 (joinChar (CHR ''-'')
       (tokens (\<lambda>c. \<not> slugLetter c)
         (toLowerCase (joinChar (CHR '' '') (tokens isSpace b)))))"

text \<open>
  The base of an identifier as the specification describes it, with the fallback of the
  code: the first available of the six signals, or \<open>element-\<close> and the index.
\<close>

definition idBase :: "ReconElement \<Rightarrow> nat \<Rightarrow> string" where
  "idBase el index =
     (case firstAvailable [el_testId el, el_id el, el_name el, el_ariaLabel el, el_text el,
                           Some (el_tagName el)] of
        Some b \<Rightarrow> b
      | None \<Rightarrow> ''element-'' @ numberToString index)"

text \<open>A string without the characters of a class at its end.\<close>

definition rtrim :: "(char \<Rightarrow> bool) \<Rightarrow> string \<Rightarrow> string" where
  "rtrim p s = rev (dropWhile p (rev s))"

text \<open>An input node that acts as a button: its type is submit, button or reset in any case.\<close>

definition isInputButton :: "Node \<Rightarrow> bool" where
  "isInputButton e =
     (toLowerCase (nd_tagName e) = ''input'' \<and>
      (case getAttribute e ''type'' of
         None \<Rightarrow> False
       | Some t \<Rightarrow> toLowerCase t \<in> {''submit'', ''button'', ''reset''}))"

text \<open>
  A string is trimmed when it neither starts nor ends with white space; it is free of
  runs when every character of the class is the replacement character and is followed
  by a character outside the class, or by nothing.
\<close>

definition trimmed :: "string \<Rightarrow> bool" where
  "trimmed s = (s = [] \<or> (\<not> isSpace (hd s) \<and> \<not> isSpace (last s)))"

fun runsFree :: "(char \<Rightarrow> bool) \<Rightarrow> char \<Rightarrow> string \<Rightarrow> bool" where
  "runsFree p r [] = True"
| "runsFree p r [x] = (p x \<longrightarrow> x = r)"
| "runsFree p r (x # y # zs) = ((p x \<longrightarrow> x = r \<and> \<not> p y) \<and> runsFree p r (y # zs))"

text \<open>Reading a decimal numeral back, and the text after the last hyphen of a string.\<close>

definition digitValue :: "char \<Rightarrow> nat" where
  "digitValue c = of_char c - 48"

definition decodeNumber :: "string \<Rightarrow> nat" where
  "decodeNumber s = foldl (\<lambda>a c. 10 * a + digitValue c) 0 s"

definition afterLastHyphen :: "string \<Rightarrow> string" where
  "afterLastHyphen s = rev (takeWhile (\<lambda>c. c \<noteq> CHR ''-'') (rev s))"

subsection \<open>Example inputs\<close>

text \<open>An element with the two required fields and every optional field absent.\<close>

definition bareElement :: "ReconElementType \<Rightarrow> string \<Rightarrow> ReconElement" where
  "bareElement t tag =
     \<lparr> el_type = t, el_tagName = tag, el_role = None, el_accessibleName = None,
       el_labelText = None, el_testId = None, el_text = None, el_id = None, el_name = None,
       el_href = None, el_placeholder = None, el_ariaLabel = None, el_disabled = None,
       el_ariaDisabled = None, el_typeAttr = None, el_value = None, el_css = None,
       el_xpath = None \<rparr>"

text \<open>A node with a tag name, attributes and text, no label, at the root of its tree.\<close>

definition plainNode :: "string \<Rightarrow> (string \<times> string) list \<Rightarrow> string \<Rightarrow> Node" where
  "plainNode tag attrs txt =
     \<lparr> nd_tagName = tag, nd_attrs = map_of attrs, nd_textContent = Some txt,
       nd_disabledProp = False, nd_labelFor = None, nd_closestLabel = None,
       nd_prevSiblings = [], nd_ancestors = [] \<rparr>"

text \<open>
  A stand-in for the platform's parser in the examples: it accepts \<open>http://\<close> and
  \<open>https://\<close> followed by a non-empty host, which ends at the first slash, question
  mark or hash.
\<close>

definition plainURL :: "string \<Rightarrow> URL option" where
  "plainURL s =
     (let rest = (if take 8 s = ''https://'' then Some (drop 8 s)
                  else if take 7 s = ''http://'' then Some (drop 7 s) else None)
      in case rest of
           None \<Rightarrow> None
         | Some r \<Rightarrow>
             let h = takeWhile (\<lambda>c. c \<notin> set ''/?#'') r
             in if h = [] then None else Some \<lparr> hostname = h \<rparr>)"

section \<open>Facts about the string helpers\<close>

lemma dropWhile_Cons_not: "dropWhile p xs = y # ys \<Longrightarrow> \<not> p y"
  using hd_dropWhile [of p xs] by auto

lemma runsFree_Cons_not: "\<not> p x \<Longrightarrow> runsFree p r (x # xs) = runsFree p r xs"
  by (cases xs) auto

lemma runsFree_replaceRuns: "runsFree p r (replaceRuns p r xs)"
proof (induction p r xs rule: replaceRuns.induct)
  case (1 p r)
  show ?case by simp
next
  case (2 p r x xs)
  show ?case
  proof (cases "p x")
    case False
    with 2 show ?thesis by (simp add: runsFree_Cons_not)
  next
    case True
    show ?thesis
    proof (cases "dropWhile p xs")
      case Nil
      have "replaceRuns p r (x # xs) = r # replaceRuns p r (dropWhile p xs)"
        using True by simp
      also have "\<dots> = [r]" by (simp only: Nil replaceRuns.simps)
      finally show ?thesis by simp
    next
      case (Cons y ys)
      then have ny: "\<not> p y" by (rule dropWhile_Cons_not)
      from 2(1) [OF True] Cons have "runsFree p r (replaceRuns p r (y # ys))" by simp
      with True Cons ny show ?thesis by simp
    qed
  qed
qed

lemma replaceRuns_fixed: "runsFree p r xs \<Longrightarrow> replaceRuns p r xs = xs"
proof (induction p r xs rule: runsFree.induct)
  case (1 p r)
  show ?case by simp
next
  case (2 p r x)
  then show ?case by simp
next
  case (3 p r x y zs)
  then show ?case by auto
qed

lemma replaceRuns_idem: "replaceRuns p r (replaceRuns p r xs) = replaceRuns p r xs"
  by (rule replaceRuns_fixed) (rule runsFree_replaceRuns)

lemma runsFree_take: "runsFree p r xs \<Longrightarrow> runsFree p r (take n xs)"
proof (induction p r xs arbitrary: n rule: runsFree.induct)
  case (1 p r)
  show ?case by simp
next
  case (2 p r x)
  then show ?case by (cases n) auto
next
  case (3 p r x y zs)
  show ?case
  proof (cases n)
    case 0
    then show ?thesis by simp
  next
    case (Suc m)
    show ?thesis
    proof (cases m)
      case 0
      with Suc 3 show ?thesis by auto
    next
      case (Suc k)
      from 3 have "runsFree p r (take m (y # zs))" by simp
      with 3(2) Suc \<open>n = Suc m\<close> show ?thesis by simp
    qed
  qed
qed

lemma replaceRuns_Nil_iff: "replaceRuns p r xs = [] \<longleftrightarrow> xs = []"
  by (cases xs) auto

lemma hd_replaceRuns: "xs \<noteq> [] \<Longrightarrow> \<not> p (hd xs) \<Longrightarrow> hd (replaceRuns p r xs) = hd xs"
  by (cases xs) auto

lemma replaceRuns_snoc:
  "\<not> p y \<Longrightarrow> replaceRuns p r (xs @ [y]) = replaceRuns p r xs @ [y]"
proof (induction p r xs rule: replaceRuns.induct)
  case (1 p r)
  then show ?case by simp
next
  case (2 p r x xs)
  show ?case
  proof (cases "p x")
    case False
    with 2 show ?thesis by simp
  next
    case True
    have dw: "dropWhile p (xs @ [y]) = dropWhile p xs @ [y]"
      using 2(3) by (induction xs) auto
    from 2(1) [OF True 2(3)] True dw show ?thesis by simp
  qed
qed

lemma last_replaceRuns:
  assumes "xs \<noteq> []" "\<not> p (last xs)"
  shows "last (replaceRuns p r xs) = last xs"
proof -
  from assms(1) obtain ys y where xs: "xs = ys @ [y]"
    by (metis append_butlast_last_id)
  with assms(2) have "\<not> p y" by simp
  then show ?thesis by (simp add: xs replaceRuns_snoc)
qed

lemma trimmed_trim: "trimmed (trim s)"
proof (cases "trim s = []")
  case True
  then show ?thesis by (simp add: trimmed_def)
next
  case False
  let ?a = "dropWhile isSpace s"
  let ?b = "dropWhile isSpace (rev ?a)"
  from False have b: "?b \<noteq> []" by (simp add: trim_def)
  then have a: "?a \<noteq> []" by (metis dropWhile.simps(1) rev.simps(1))
  have hb: "\<not> isSpace (hd ?b)" using b hd_dropWhile by blast
  have ha: "\<not> isSpace (hd ?a)" using a hd_dropWhile by blast
  have "last (trim s) = hd ?b" using b by (simp add: trim_def last_rev)
  moreover have "hd (trim s) = hd ?a"
  proof -
    have "rev ?a = takeWhile isSpace (rev ?a) @ ?b" by simp
    then have "?a = rev ?b @ rev (takeWhile isSpace (rev ?a))"
      by (metis rev_append rev_rev_ident)
    then have "hd ?a = hd (rev ?b)" using b by (metis hd_append2 rev_is_Nil_conv)
    then show ?thesis by (simp add: trim_def)
  qed
  ultimately show ?thesis using ha hb by (simp add: trimmed_def)
qed

lemma trim_fixed: "trimmed s \<Longrightarrow> trim s = s"
proof (cases s)
  case Nil
  then show ?thesis by (simp add: trim_def)
next
  case (Cons x xs)
  assume "trimmed s"
  with Cons have h: "\<not> isSpace x" and l: "\<not> isSpace (last s)" by (auto simp: trimmed_def)
  from h Cons have 1: "dropWhile isSpace s = s" by simp
  from Cons have ne: "s \<noteq> []" by simp
  then have "hd (rev s) = last s" by (simp add: hd_rev)
  with l ne have "rev s \<noteq> []" "\<not> isSpace (hd (rev s))" by simp_all
  then have 2: "dropWhile isSpace (rev s) = rev s" by (cases "rev s") auto
  show ?thesis by (simp add: trim_def 1 2)
qed

lemma trimmed_replaceRuns: "trimmed s \<Longrightarrow> trimmed (replaceRuns isSpace r s)"
  by (auto simp: trimmed_def replaceRuns_Nil_iff hd_replaceRuns last_replaceRuns)

lemma normalizeWhitespace_trimmed: "trimmed (normalizeWhitespace s)"
  by (simp add: normalizeWhitespace_def trimmed_trim trimmed_replaceRuns)

lemma normalizeWhitespace_runsFree: "runsFree isSpace (CHR '' '') (normalizeWhitespace s)"
  by (simp add: normalizeWhitespace_def runsFree_replaceRuns)

lemma normalizeWhitespace_fixed:
  "trimmed s \<Longrightarrow> runsFree isSpace (CHR '' '') s \<Longrightarrow> normalizeWhitespace s = s"
  by (simp add: normalizeWhitespace_def trim_fixed replaceRuns_fixed)

lemma normalizeWhitespace_idem: "normalizeWhitespace (normalizeWhitespace s) = normalizeWhitespace s"
  by (simp add: normalizeWhitespace_fixed normalizeWhitespace_trimmed normalizeWhitespace_runsFree)

lemma safeName_SomeD:
  assumes "safeName s = Some v"
  obtains t where "s = Some t" "t \<noteq> []" "normalizeWhitespace t \<noteq> []"
    "v = take 80 (normalizeWhitespace t)"
  using assms
  by (auto simp: safeName_def slice0_def Let_def split: option.splits if_splits)

lemma safeName_Some_fixed:
  assumes "v \<noteq> []" "length v \<le> 80" "trimmed v" "runsFree isSpace (CHR '' '') v"
  shows "safeName (Some v) = Some v"
  using assms by (simp add: safeName_def slice0_def normalizeWhitespace_fixed)

lemma length_trim_less:
  assumes "v \<noteq> []" "isSpace (last v)"
  shows "length (trim v) < length v"
proof -
  let ?a = "dropWhile isSpace v"
  show ?thesis
  proof (cases "?a = []")
    case True
    have "trim v = []" by (simp only: trim_def True rev.simps dropWhile.simps)
    with assms(1) show ?thesis by simp
  next
    case False
    then have "last ?a = last v" by (metis last_appendR takeWhile_dropWhile_id)
    with False assms(2) have "rev ?a \<noteq> []" "isSpace (hd (rev ?a))" by (simp_all add: hd_rev)
    then have "length (dropWhile isSpace (rev ?a)) < length (rev ?a)"
      by (cases "rev ?a") (auto simp: length_dropWhile_le less_Suc_eq_le)
    moreover have "length ?a \<le> length v" by (rule length_dropWhile_le)
    ultimately show ?thesis by (simp add: trim_def)
  qed
qed

lemma length_replaceRuns_le: "length (replaceRuns p r xs) \<le> length xs"
proof (induction p r xs rule: replaceRuns.induct)
  case (1 p r)
  show ?case by simp
next
  case (2 p r x xs)
  show ?case
  proof (cases "p x")
    case True
    from 2(1) [OF True] have "length (replaceRuns p r (dropWhile p xs)) \<le> length xs"
      using length_dropWhile_le [of p xs] by linarith
    with True show ?thesis by simp
  next
    case False
    with 2 show ?thesis by simp
  qed
qed

text \<open>
  Claim C10, as amended. Whenever \<open>safeName\<close> yields a value \<open>v\<close> for a string, a second
  application returns \<open>v\<close> again exactly when \<open>v\<close> does not end in white space; that is
  always so when the normalized string has at most 80 characters, where nothing is cut.
\<close>

theorem safeName_idempotent_iff_no_trailing_space:
  assumes "safeName (Some t) = Some v"
  shows "(safeName (Some v) = Some v \<longleftrightarrow> \<not> isSpace (last v))
       \<and> (length (normalizeWhitespace t) \<le> 80 \<longrightarrow> safeName (Some v) = Some v)"
proof -
  from assms obtain t' where t': "Some t = Some t'" "normalizeWhitespace t' \<noteq> []"
    "v = take 80 (normalizeWhitespace t')"
    by (rule safeName_SomeD)
  then have t: "normalizeWhitespace t \<noteq> []" "v = take 80 (normalizeWhitespace t)" by simp_all
  let ?w = "normalizeWhitespace t"
  have w: "trimmed ?w" "runsFree isSpace (CHR '' '') ?w"
    by (rule normalizeWhitespace_trimmed, rule normalizeWhitespace_runsFree)
  from t have v: "v \<noteq> []" "length v \<le> 80" by simp_all
  from t have "hd v = hd ?w" by (cases ?w) auto
  with w(1) t(1) have hd: "\<not> isSpace (hd v)" by (simp add: trimmed_def)
  have rf: "runsFree isSpace (CHR '' '') v" unfolding t(2) by (rule runsFree_take) (rule w(2))
  have fwd: "safeName (Some v) = Some v" if "\<not> isSpace (last v)"
    using that hd v rf by (intro safeName_Some_fixed) (simp_all add: trimmed_def)
  have bwd: "\<not> isSpace (last v)" if fx: "safeName (Some v) = Some v"
  proof
    assume "isSpace (last v)"
    with v(1) have "length (trim v) < length v" by (rule length_trim_less)
    moreover have "length (normalizeWhitespace v) \<le> length (trim v)"
      unfolding normalizeWhitespace_def by (rule length_replaceRuns_le)
    moreover from fx obtain u where "v = take 80 (normalizeWhitespace u)" "Some v = Some u"
      by (rule safeName_SomeD)
    then have "v = take 80 (normalizeWhitespace v)" by simp
    then have "length v = length (take 80 (normalizeWhitespace v))" by (rule arg_cong)
    then have "length v \<le> length (normalizeWhitespace v)" by simp
    ultimately show False by simp
  qed
  have short: "safeName (Some v) = Some v" if "length ?w \<le> 80"
  proof -
    from that t(2) have "v = ?w" by simp
    with w(1) t(1) have "\<not> isSpace (last v)" by (simp add: trimmed_def)
    then show ?thesis by (rule fwd)
  qed
  from fwd bwd short show ?thesis by auto
qed

theorem safeName_idempotent_iff_no_trailing_space_witness:
  "safeName (Some ''  Log   in '') = Some ''Log in''
   \<and> \<not> isSpace (last ''Log in'')
   \<and> length (normalizeWhitespace ''  Log   in '') \<le> 80
   \<and> safeName (Some ''Log in'') = Some ''Log in''"
proof -
  have h: "safeName (Some ''  Log   in '') = Some ''Log in''"
    by (simp add: safeName_def normalizeWhitespace_def trim_def isSpace_def slice0_def)
  have n: "length (normalizeWhitespace ''  Log   in '') \<le> 80"
    by (simp add: normalizeWhitespace_def trim_def isSpace_def)
  have l: "\<not> isSpace (last ''Log in'')" by (simp add: isSpace_def)
  from safeName_idempotent_iff_no_trailing_space [OF h] h n l show ?thesis by blast
qed

text \<open>
  Claim C10 as stated fails: a string of 79 letters, a space and one more letter is cut
  after the space, and a second application trims that space away.
\<close>

theorem safeName_not_idempotent:
  "safeName (Some (replicate 79 (CHR ''a'') @ '' b'')) = Some (replicate 79 (CHR ''a'') @ '' '')
   \<and> safeName (Some (replicate 79 (CHR ''a'') @ '' '')) \<noteq> Some (replicate 79 (CHR ''a'') @ '' '')"
  by code_simp

section \<open>Tokens\<close>

lemma slugLetter_iff: "slugLetter c = isLowerAlnum c"
  by (cases c) (simp add: slugLetter_def isLowerAlnum_def)

lemma rtrim_Nil: "rtrim p [] = []"
  by (simp add: rtrim_def)

lemma rtrim_all: "\<forall>y \<in> set s. p y \<Longrightarrow> rtrim p s = []"
  by (simp add: rtrim_def)

lemma rtrim_Cons:
  "rtrim p (x # xs) = (if \<forall>y \<in> set (x # xs). p y then [] else x # rtrim p xs)"
proof (cases "\<forall>y \<in> set xs. p y")
  case True
  then have "dropWhile p (rev xs @ [x]) = dropWhile p [x]"
    by (simp add: dropWhile_append)
  with True show ?thesis by (simp add: rtrim_def)
next
  case False
  then have "dropWhile p (rev xs @ [x]) = dropWhile p (rev xs) @ [x]"
    by (auto simp: dropWhile_append)
  with False show ?thesis by (auto simp: rtrim_def)
qed

lemma rtrim_append_token:
  "\<forall>c \<in> set w. \<not> p c \<Longrightarrow> rtrim p (w @ y) = w @ rtrim p y"
  by (induction w) (auto simp: rtrim_Cons)

lemma replaceRuns_append_token:
  "\<forall>c \<in> set w. \<not> p c \<Longrightarrow> replaceRuns p r (w @ y) = w @ replaceRuns p r y"
  by (induction w) auto

lemma dropWhile_rtrim: "dropWhile p (rtrim p z) = rtrim p (dropWhile p z)"
proof (induction z)
  case Nil
  show ?case by (simp add: rtrim_Nil)
next
  case (Cons x xs)
  show ?case
  proof (cases "\<forall>y \<in> set (x # xs). p y")
    case True
    then have "dropWhile p (x # xs) = []" by simp
    with True show ?thesis by (simp only: rtrim_all rtrim_Nil dropWhile.simps)
  next
    case False
    then have r: "rtrim p (x # xs) = x # rtrim p xs" by (simp only: rtrim_Cons if_False)
    show ?thesis
    proof (cases "p x")
      case True
      with r Cons show ?thesis by simp
    next
      case False
      with r show ?thesis by simp
    qed
  qed
qed

lemma replaceRuns_starts_outside:
  "xs \<noteq> [] \<Longrightarrow> \<not> p (hd xs) \<Longrightarrow> \<exists>ys. replaceRuns p r xs = hd xs # ys"
  by (cases xs) auto

lemma dropWhile_replaceRuns:
  assumes "p r"
  shows "dropWhile p (replaceRuns p r x) = replaceRuns p r (dropWhile p x)"
proof (cases x)
  case Nil
  then show ?thesis by simp
next
  case (Cons a xs)
  show ?thesis
  proof (cases "p a")
    case False
    with Cons show ?thesis by simp
  next
    case True
    have "dropWhile p (replaceRuns p r (dropWhile p xs)) = replaceRuns p r (dropWhile p xs)"
    proof (cases "dropWhile p xs")
      case Nil
      then show ?thesis by (simp only: replaceRuns.simps dropWhile.simps)
    next
      case (Cons y ys)
      then have "\<not> p y" by (rule dropWhile_Cons_not)
      then show ?thesis by (simp only: Cons) simp
    qed
    with True Cons assms show ?thesis by simp
  qed
qed

lemma set_replaceRuns: "x \<in> set (replaceRuns p r xs) \<Longrightarrow> x = r \<or> (x \<in> set xs \<and> \<not> p x)"
proof (induction p r xs rule: replaceRuns.induct)
  case (1 p r)
  then show ?case by simp
next
  case (2 p r x' xs)
  show ?case
  proof (cases "p x'")
    case True
    with 2 have "x = r \<or> x \<in> set (replaceRuns p r (dropWhile p xs))" by simp
    with 2(1) [OF True] have "x = r \<or> (x \<in> set (dropWhile p xs) \<and> \<not> p x)" by auto
    then show ?thesis using set_dropWhileD [of x p xs] by auto
  next
    case False
    with 2 show ?thesis by auto
  qed
qed

lemma tokens_Nil: "dropWhile p s = [] \<Longrightarrow> tokens p s = []"
  by (subst tokens.simps) (simp del: dropWhile_eq_Nil_conv)

lemma tokens_Cons:
  "dropWhile p s = x # xs \<Longrightarrow>
     tokens p s = (x # takeWhile (\<lambda>c. \<not> p c) xs) # tokens p (dropWhile (\<lambda>c. \<not> p c) xs)"
  by (subst tokens.simps) simp

lemma tokens_Nil_iff: "tokens p s = [] \<longleftrightarrow> (\<forall>c \<in> set s. p c)"
proof (cases "dropWhile p s")
  case Nil
  then have "tokens p s = []" by (rule tokens_Nil)
  moreover from Nil have "\<forall>c \<in> set s. p c" by (simp add: dropWhile_eq_Nil_conv)
  ultimately show ?thesis by simp
next
  case (Cons x xs)
  then have "tokens p s \<noteq> []" by (simp add: tokens_Cons)
  moreover from Cons have "\<not> (\<forall>c \<in> set s. p c)"
    by (metis dropWhile_eq_Nil_conv list.distinct(1))
  ultimately show ?thesis by simp
qed

lemma joinChar_Cons: "ts \<noteq> [] \<Longrightarrow> joinChar r (w # ts) = w @ r # joinChar r ts"
  by (cases ts) simp_all

lemma joinChar_tokens_Nil_iff: "joinChar r (tokens p s) = [] \<longleftrightarrow> tokens p s = []"
proof (cases "dropWhile p s")
  case Nil
  then have "tokens p s = []" by (rule tokens_Nil)
  then show ?thesis by simp
next
  case (Cons x xs)
  then obtain w ts where "tokens p s = (x # w) # ts" by (simp add: tokens_Cons)
  then show ?thesis by (cases ts) simp_all
qed

lemma token_rest_separator:
  assumes "dropWhile (\<lambda>c. \<not> p c) xs \<noteq> []"
  shows "p (hd (dropWhile (\<lambda>c. \<not> p c) xs))"
  using hd_dropWhile [OF assms] by simp

lemma replaceRuns_all_separators:
  assumes "\<forall>c \<in> set s. p c" "p r"
  shows "\<forall>c \<in> set (replaceRuns p r s). p c"
proof
  fix c assume "c \<in> set (replaceRuns p r s)"
  from set_replaceRuns [OF this] assms show "p c" by auto
qed

lemma replaceRuns_rtrim_separator:
  assumes "rest \<noteq> []" "p (hd rest)" "\<not> (\<forall>c \<in> set rest. p c)"
  shows "replaceRuns p r (rtrim p rest) = r # replaceRuns p r (rtrim p (dropWhile p rest))"
proof -
  from assms(1) obtain sep rest' where rest: "rest = sep # rest'" by (cases rest) auto
  with assms(2) have sep: "p sep" by simp
  from assms(3) have "rtrim p (sep # rest') = sep # rtrim p rest'"
    unfolding rest by (simp only: rtrim_Cons if_False)
  then have "replaceRuns p r (rtrim p rest) = r # replaceRuns p r (dropWhile p (rtrim p rest'))"
    using sep by (simp add: rest)
  also have "dropWhile p (rtrim p rest') = rtrim p (dropWhile p rest')" by (rule dropWhile_rtrim)
  also have "dropWhile p rest' = dropWhile p rest" using sep by (simp add: rest)
  finally show ?thesis .
qed

lemma rtrim_replaceRuns_separator:
  assumes "rest \<noteq> []" "p (hd rest)" "\<not> (\<forall>c \<in> set rest. p c)" "p r"
  shows "rtrim p (replaceRuns p r rest) = r # rtrim p (dropWhile p (replaceRuns p r rest))"
proof -
  from assms(1) obtain sep rest' where rest: "rest = sep # rest'" by (cases rest) auto
  with assms(2) have sep: "p sep" by simp
  let ?y = "replaceRuns p r (dropWhile p rest)"
  from sep have y: "replaceRuns p r rest = r # ?y" by (simp add: rest)
  from assms(3) have ne: "dropWhile p rest \<noteq> []" by (simp add: dropWhile_eq_Nil_conv)
  then have "\<not> p (hd (dropWhile p rest))" by (rule hd_dropWhile)
  with ne obtain ys where "?y = hd (dropWhile p rest) # ys"
    using replaceRuns_starts_outside [of "dropWhile p rest" p r] by blast
  with \<open>\<not> p (hd (dropWhile p rest))\<close> have "\<not> (\<forall>c \<in> set (r # ?y). p c)" by auto
  then have a: "rtrim p (r # ?y) = r # rtrim p ?y" by (simp only: rtrim_Cons if_False)
  have b: "r # rtrim p ?y = r # rtrim p (dropWhile p (replaceRuns p r rest))"
    by (simp only: dropWhile_replaceRuns [of p r rest, OF assms(4)])
  have "rtrim p (replaceRuns p r rest) = rtrim p (r # ?y)" by (simp only: y)
  also note a
  also note b
  finally show ?thesis .
qed

lemma replaceRuns_strip_tokens:
  "replaceRuns p r (rtrim p (dropWhile p s)) = joinChar r (tokens p s)"
proof (induction p s rule: tokens.induct)
  case (1 p s)
  show ?case
  proof (cases "dropWhile p s")
    case Nil
    then have "tokens p s = []" by (rule tokens_Nil)
    then show ?thesis by (simp only: Nil rtrim_Nil replaceRuns.simps joinChar.simps)
  next
    case (Cons x xs)
    let ?w = "x # takeWhile (\<lambda>c. \<not> p c) xs"
    let ?rest = "dropWhile (\<lambda>c. \<not> p c) xs"
    from Cons have nx: "\<not> p x" by (rule dropWhile_Cons_not)
    then have w: "\<forall>c \<in> set ?w. \<not> p c" by (auto dest: set_takeWhileD)
    have split: "dropWhile p s = ?w @ ?rest" by (simp add: Cons)
    have toks: "tokens p s = ?w # tokens p ?rest" using Cons by (rule tokens_Cons)
    have ih: "replaceRuns p r (rtrim p (dropWhile p ?rest)) = joinChar r (tokens p ?rest)"
      using "1.IH" [OF Cons] .
    have "replaceRuns p r (rtrim p (dropWhile p s)) = replaceRuns p r (?w @ rtrim p ?rest)"
      by (simp only: split rtrim_append_token [OF w])
    also have "\<dots> = ?w @ replaceRuns p r (rtrim p ?rest)"
      by (rule replaceRuns_append_token [OF w])
    finally have lhs: "replaceRuns p r (rtrim p (dropWhile p s)) = ?w @ replaceRuns p r (rtrim p ?rest)" .
    show ?thesis
    proof (cases "\<forall>c \<in> set ?rest. p c")
      case True
      then have "tokens p ?rest = []" by (simp only: tokens_Nil_iff)
      moreover from True have "rtrim p ?rest = []" by (rule rtrim_all)
      ultimately show ?thesis by (simp only: lhs toks replaceRuns.simps joinChar.simps append_Nil2)
    next
      case False
      then have ne: "?rest \<noteq> []" by (auto simp del: dropWhile_eq_Nil_conv)
      from replaceRuns_rtrim_separator [OF ne token_rest_separator [OF ne] False]
      have "replaceRuns p r (rtrim p ?rest) = r # joinChar r (tokens p ?rest)"
        by (simp only: ih)
      with lhs have "replaceRuns p r (rtrim p (dropWhile p s)) = ?w @ r # joinChar r (tokens p ?rest)"
        by (simp only:)
      moreover from False have "tokens p ?rest \<noteq> []" by (simp only: tokens_Nil_iff) simp
      then have "joinChar r (tokens p s) = ?w @ r # joinChar r (tokens p ?rest)"
        unfolding toks by (rule joinChar_Cons)
      ultimately show ?thesis by (rule trans [OF _ sym])
    qed
  qed
qed

lemma strip_replaceRuns_tokens:
  "p r \<Longrightarrow> rtrim p (dropWhile p (replaceRuns p r s)) = joinChar r (tokens p s)"
proof (induction p s rule: tokens.induct)
  case (1 p s)
  note pr = "1.prems"
  have d: "dropWhile p (replaceRuns p r z) = replaceRuns p r (dropWhile p z)" for z
    using pr by (rule dropWhile_replaceRuns)
  show ?case
  proof (cases "dropWhile p s")
    case Nil
    then have "tokens p s = []" by (rule tokens_Nil)
    then show ?thesis by (simp only: d Nil rtrim_Nil replaceRuns.simps joinChar.simps)
  next
    case (Cons x xs)
    let ?w = "x # takeWhile (\<lambda>c. \<not> p c) xs"
    let ?rest = "dropWhile (\<lambda>c. \<not> p c) xs"
    from Cons have nx: "\<not> p x" by (rule dropWhile_Cons_not)
    then have w: "\<forall>c \<in> set ?w. \<not> p c" by (auto dest: set_takeWhileD)
    have split: "dropWhile p s = ?w @ ?rest" by (simp add: Cons)
    have toks: "tokens p s = ?w # tokens p ?rest" using Cons by (rule tokens_Cons)
    have ih: "rtrim p (dropWhile p (replaceRuns p r ?rest)) = joinChar r (tokens p ?rest)"
      using "1.IH" [OF Cons pr] .
    have "rtrim p (dropWhile p (replaceRuns p r s)) = rtrim p (?w @ replaceRuns p r ?rest)"
      by (simp only: d split replaceRuns_append_token [OF w])
    also have "\<dots> = ?w @ rtrim p (replaceRuns p r ?rest)"
      by (rule rtrim_append_token [OF w])
    finally have lhs: "rtrim p (dropWhile p (replaceRuns p r s)) = ?w @ rtrim p (replaceRuns p r ?rest)" .
    show ?thesis
    proof (cases "\<forall>c \<in> set ?rest. p c")
      case True
      then have "tokens p ?rest = []" by (simp only: tokens_Nil_iff)
      moreover from True pr have "rtrim p (replaceRuns p r ?rest) = []"
        by (intro rtrim_all replaceRuns_all_separators)
      ultimately show ?thesis by (simp only: lhs toks joinChar.simps append_Nil2)
    next
      case False
      then have ne: "?rest \<noteq> []" by (auto simp del: dropWhile_eq_Nil_conv)
      from rtrim_replaceRuns_separator [OF ne token_rest_separator [OF ne] False pr]
      have "rtrim p (replaceRuns p r ?rest) = r # joinChar r (tokens p ?rest)"
        by (simp only: ih)
      with lhs have "rtrim p (dropWhile p (replaceRuns p r s)) = ?w @ r # joinChar r (tokens p ?rest)"
        by (simp only:)
      moreover from False have "tokens p ?rest \<noteq> []" by (simp only: tokens_Nil_iff) simp
      then have "joinChar r (tokens p s) = ?w @ r # joinChar r (tokens p ?rest)"
        unfolding toks by (rule joinChar_Cons)
      ultimately show ?thesis by (rule trans [OF _ sym])
    qed
  qed
qed

lemma normalizeWhitespace_tokens:
  "normalizeWhitespace s = joinChar (CHR '' '') (tokens isSpace s)"
  using replaceRuns_strip_tokens [of isSpace "CHR '' ''" s]
  by (simp add: normalizeWhitespace_def trim_def rtrim_def)

lemma normalizeWhitespace_Nil_iff: "normalizeWhitespace s = [] \<longleftrightarrow> (\<forall>c \<in> set s. isSpace c)"
  by (simp only: normalizeWhitespace_tokens joinChar_tokens_Nil_iff tokens_Nil_iff)

lemma stripHyphens_replaceRuns:
  "stripHyphens (replaceRuns (\<lambda>c. \<not> isLowerAlnum c) (CHR ''-'') s) =
     joinChar (CHR ''-'') (tokens (\<lambda>c. \<not> isLowerAlnum c) s)"
proof -
  let ?p = "\<lambda>c. \<not> isLowerAlnum c"
  let ?u = "replaceRuns ?p (CHR ''-'') s"
  have h: "?p (CHR ''-'')" by (simp add: isLowerAlnum_def)
  have same: "isHyphen c = ?p c" if "c \<in> set ?u" for c
  proof (cases "c = CHR ''-''")
    case True
    with h show ?thesis by (simp add: isHyphen_def)
  next
    case False
    with set_replaceRuns [OF that] show ?thesis by (simp add: isHyphen_def)
  qed
  have 1: "dropWhile isHyphen ?u = dropWhile ?p ?u"
    by (rule dropWhile_cong) (simp_all add: same)
  have 2: "dropWhile isHyphen (rev (dropWhile ?p ?u)) = dropWhile ?p (rev (dropWhile ?p ?u))"
    by (rule dropWhile_cong) (auto simp: same dest: set_dropWhileD)
  have "stripHyphens ?u = rtrim ?p (dropWhile ?p ?u)"
    by (simp only: stripHyphens_def rtrim_def 1 2)
  then show ?thesis by (simp only: strip_replaceRuns_tokens [of ?p "CHR ''-''" s, OF h])
qed

lemma slugOf_slugSpec: "slugOf b = slugSpec b"
proof -
  have "(\<lambda>c. \<not> slugLetter c) = (\<lambda>c. \<not> isLowerAlnum c)" by (simp add: slugLetter_iff)
  then show ?thesis
    by (simp add: slugOf_def slugSpec_def slice0_def stripHyphens_replaceRuns normalizeWhitespace_tokens)
qed

section \<open>The display name\<close>

lemma normalizeWhitespace_Nil: "normalizeWhitespace [] = []"
  by (simp add: normalizeWhitespace_def trim_def)

lemma present_Some_iff: "present (Some t) \<longleftrightarrow> normalizeWhitespace t \<noteq> []"
  by (simp add: present_def normalizeWhitespace_Nil_iff)

lemma safeName_present:
  "safeName v = (if present v then map_option cleaned v else None)"
proof (cases v)
  case None
  then show ?thesis by (simp add: safeName_def present_def)
next
  case (Some t)
  have "cleaned t = take 80 (normalizeWhitespace t)"
    by (simp only: cleaned_def normalizeWhitespace_tokens)
  then show ?thesis
    unfolding Some using present_Some_iff [of t]
    by (auto simp: safeName_def slice0_def Let_def normalizeWhitespace_Nil)
qed

lemma safeName_None_iff: "safeName v = None \<longleftrightarrow> \<not> present v"
  by (cases v) (simp_all add: safeName_present present_def)

lemma safeName_not_empty: "safeName v \<noteq> Some []"
  by (auto simp: safeName_def slice0_def Let_def split: option.splits)

lemma truthy_safeName: "truthy (safeName v) \<longleftrightarrow> present v"
proof (cases "safeName v")
  case None
  then show ?thesis by (simp add: truthy_def safeName_None_iff [symmetric])
next
  case (Some w)
  with safeName_not_empty [of v] have "w \<noteq> []" by auto
  moreover from Some have "present v" using safeName_None_iff [of v] by simp
  ultimately show ?thesis using Some by (simp add: truthy_def)
qed

lemma orElse_safeName:
  "orElse (safeName v) b = (if present v then map_option cleaned v else b)"
  by (simp add: orElse_def truthy_safeName) (simp add: safeName_present)

lemma orElse_absent: "\<not> truthy a \<Longrightarrow> orElse a b = b"
  by (simp add: orElse_def)

lemma orElse_assoc: "orElse (orElse a b) c = orElse a (orElse b c)"
  by (simp add: orElse_def)

lemma firstPresentName_Nil: "firstPresentName [] = None"
  by (simp add: firstPresentName_def)

lemma firstPresentName_Cons:
  "firstPresentName (v # vs) = (if present v then map_option cleaned v else firstPresentName vs)"
  by (simp add: firstPresentName_def)

lemma buildName_firstPresentName:
  "buildName el =
     firstPresentName [el_accessibleName el, el_labelText el, el_ariaLabel el,
                       el_name el, el_id el, el_text el]"
proof -
  have "buildName el =
      orElse (safeName (el_accessibleName el)) (orElse (safeName (el_labelText el))
        (orElse (safeName (el_ariaLabel el)) (orElse (safeName (el_name el))
          (orElse (safeName (el_id el)) (safeName (el_text el))))))"
    by (simp only: buildName_def orElse_assoc)
  also have "\<dots> = firstPresentName [el_accessibleName el, el_labelText el, el_ariaLabel el,
                       el_name el, el_id el, el_text el]"
    by (simp only: orElse_safeName firstPresentName_Cons firstPresentName_Nil
        safeName_present [of "el_text el"])
  finally show ?thesis .
qed

text \<open>
  Claim C3. For every report element, the display name of its model element is the first
  of accessible name, label text, aria-label, name attribute, id attribute and visible
  text that is present, that is, has a character other than white space; the name is
  the words of that signal with single spaces between them, cut to 80 characters. In
  particular, with accessible name A, label text B, aria-label C, id D and text E all
  present, the name is A.
\<close>

theorem name_is_first_present_signal:
  "em_name (elementModel el index) =
     firstPresentName [el_accessibleName el, el_labelText el, el_ariaLabel el,
                       el_name el, el_id el, el_text el]
   \<and> (el_accessibleName el = Some ''A'' \<and> el_labelText el = Some ''B''
        \<and> el_ariaLabel el = Some ''C'' \<and> el_id el = Some ''D'' \<and> el_text el = Some ''E''
      \<longrightarrow> em_name (elementModel el index) = Some ''A'')"
proof -
  have a: "present (Some ''A'')"
    by (simp add: present_def isSpace_def)
  have b: "cleaned ''A'' = ''A''"
    by code_simp
  show ?thesis
    by (simp add: elementModel_def buildName_firstPresentName firstPresentName_Cons a b)
qed

theorem name_is_first_present_signal_witness:
  "em_name (elementModel
     ((bareElement RButton ''button'')
        \<lparr> el_accessibleName := Some ''A'', el_labelText := Some ''B'', el_ariaLabel := Some ''C'',
          el_id := Some ''D'', el_text := Some ''E'' \<rparr>) 0) = Some ''A''"
  using name_is_first_present_signal
    [of "(bareElement RButton ''button'')
        \<lparr> el_accessibleName := Some ''A'', el_labelText := Some ''B'', el_ariaLabel := Some ''C'',
          el_id := Some ''D'', el_text := Some ''E'' \<rparr>" 0, THEN conjunct2]
  by (simp add: bareElement_def)

section \<open>Locators\<close>

lemma pushIf_Some: "s \<noteq> [] \<Longrightarrow> pushIf (Some s) h = [h s]"
  by (simp add: pushIf_def)

lemma buildLocators_all_six:
  assumes "el_testId el = Some t" "t \<noteq> []" "el_role el = Some r" "r \<noteq> []"
    "el_labelText el = Some l" "normalizeWhitespace l \<noteq> []"
    "el_placeholder el = Some p" "p \<noteq> []" "el_css el = Some c" "c \<noteq> []"
    "el_xpath el = Some x" "x \<noteq> []"
  shows "buildLocators el =
     [TestIdHint t, RoleHint r (safeName (el_accessibleName el)), LabelHint (safeName (Some l)),
      PlaceholderHint p, CssHint c, XpathHint x]"
proof -
  from assms(6) have l: "l \<noteq> []" by (auto simp: normalizeWhitespace_Nil)
  from assms(6) have "present (Some l)" by (simp add: present_Some_iff)
  then have "truthy (safeName (Some l))" by (simp add: truthy_safeName)
  with assms l show ?thesis by (simp add: buildLocators_def pushIf_Some)
qed

text \<open>
  Claim C1, as amended. For every report element whose test id, role, placeholder, CSS
  selector and XPath are present and non-empty, and whose label text is present and
  non-empty after whitespace normalization, the locators of its model element are exactly
  six hints in the order testId, role, label, placeholder, css, xpath; the label hint
  carries the normalized label text.
\<close>

theorem locators_six_in_order:
  assumes "el_testId el = Some t" "t \<noteq> []" "el_role el = Some r" "r \<noteq> []"
    "el_labelText el = Some l" "normalizeWhitespace l \<noteq> []"
    "el_placeholder el = Some p" "p \<noteq> []" "el_css el = Some c" "c \<noteq> []"
    "el_xpath el = Some x" "x \<noteq> []"
  shows "em_locators (elementModel el index) =
       [TestIdHint t, RoleHint r (safeName (el_accessibleName el)), LabelHint (safeName (Some l)),
        PlaceholderHint p, CssHint c, XpathHint x]
     \<and> map strategy (em_locators (elementModel el index)) =
       [''testId'', ''role'', ''label'', ''placeholder'', ''css'', ''xpath'']"
  using buildLocators_all_six [OF assms] by (simp add: elementModel_def)

theorem locators_six_in_order_witness:
  "map strategy (em_locators (elementModel
     ((bareElement RInput ''input'')
        \<lparr> el_testId := Some ''zip'', el_role := Some ''textbox'',
          el_accessibleName := Some ''Zip Code'', el_labelText := Some ''Zip Code'',
          el_placeholder := Some ''Zip Code'', el_css := Some ''input'',
          el_xpath := Some ''/html[1]'' \<rparr>) 0)) =
   [''testId'', ''role'', ''label'', ''placeholder'', ''css'', ''xpath'']"
proof -
  let ?el = "(bareElement RInput ''input'')
        \<lparr> el_testId := Some ''zip'', el_role := Some ''textbox'',
          el_accessibleName := Some ''Zip Code'', el_labelText := Some ''Zip Code'',
          el_placeholder := Some ''Zip Code'', el_css := Some ''input'',
          el_xpath := Some ''/html[1]'' \<rparr>"
  have n: "normalizeWhitespace ''Zip Code'' \<noteq> []"
    by (simp add: normalizeWhitespace_def trim_def isSpace_def)
  have "map strategy (em_locators (elementModel ?el 0)) =
      [''testId'', ''role'', ''label'', ''placeholder'', ''css'', ''xpath'']"
    using locators_six_in_order [of ?el "''zip''" "''textbox''" "''Zip Code''" "''Zip Code''"
        "''input''" "''/html[1]''" 0] n
    by (simp add: bareElement_def)
  then show ?thesis .
qed

text \<open>
  Claim C1 as stated fails: here all six signals are present and non-empty, but the label
  text is a single space, its \<open>safeName\<close> is absent, and the final filter drops the label
  hint, which leaves five hints.
\<close>

theorem blank_label_gives_five_hints:
  "em_locators (elementModel
     ((bareElement RInput ''input'')
        \<lparr> el_testId := Some ''zip'', el_role := Some ''textbox'', el_labelText := Some '' '',
          el_placeholder := Some ''Zip Code'', el_css := Some ''input'',
          el_xpath := Some ''/html[1]'' \<rparr>) 0) =
   [TestIdHint ''zip'', RoleHint ''textbox'' None, PlaceholderHint ''Zip Code'',
    CssHint ''input'', XpathHint ''/html[1]'']"
  by (simp add: elementModel_def buildLocators_def pushIf_def bareElement_def safeName_def
      normalizeWhitespace_def trim_def isSpace_def truthy_def)

section \<open>Failure and the domain\<close>

lemma buildPageModel_Inl_iff:
  "(\<exists>e. buildPageModel parseURL report title = Inl e) \<longleftrightarrow> parseURL (rr_url report) = None"
  by (auto simp: buildPageModel_def domainFromUrl_def split: option.splits)

lemma buildPageModel_Some:
  assumes "parseURL (rr_url report) = Some u"
  shows "buildPageModel parseURL report title =
     Inr \<lparr> pm_url = rr_url report, pm_domain = stripWww (hostname u),
           pm_scannedAt = rr_scannedAt report, pm_title = title,
           pm_elements = map (\<lambda>(index, el). elementModel el index)
                            (enumerate 0 (rr_elements report)) \<rparr>"
  using assms by (simp add: buildPageModel_def domainFromUrl_def)

lemma nth_elements:
  "i < length els \<Longrightarrow>
     map (\<lambda>(index, el). elementModel el index) (enumerate 0 els) ! i = elementModel (els ! i) i"
  by (simp add: nth_enumerate_eq)

lemma pushIf_member:
  "x \<in> set (pushIf v h) \<Longrightarrow> \<exists>s. v = Some s \<and> s \<noteq> [] \<and> x = h s"
  by (auto simp: pushIf_def split: option.splits if_splits)

lemma locator_source:
  assumes "x \<in> set (buildLocators el)"
  shows "(strategy x = ''testId'' \<longrightarrow> truthy (el_testId el))
       \<and> (strategy x = ''role'' \<longrightarrow> truthy (el_role el))
       \<and> (strategy x = ''label'' \<longrightarrow> truthy (el_labelText el))
       \<and> (strategy x = ''placeholder'' \<longrightarrow> truthy (el_placeholder el))
       \<and> (strategy x = ''css'' \<longrightarrow> truthy (el_css el))
       \<and> (strategy x = ''xpath'' \<longrightarrow> truthy (el_xpath el))"
  using assms by (auto simp: buildLocators_def truthy_def dest!: pushIf_member)

lemma no_source_no_hint:
  assumes "\<not> truthy v"
    and "\<And>x. x \<in> set (buildLocators el) \<Longrightarrow> strategy x = k \<Longrightarrow> truthy v"
  shows "k \<notin> set (map strategy (buildLocators el))"
  using assms by auto

lemma firstPresentName_absent: "\<forall>v \<in> set vs. v = None \<Longrightarrow> firstPresentName vs = None"
  by (induction vs) (simp_all add: firstPresentName_Nil firstPresentName_Cons present_def)

text \<open>
  Claim C4. \<open>buildPageModel\<close> fails exactly when the URL constructor rejects the URL of
  the report, and a failure yields no model. For every report whose URL is accepted it
  returns a model with the report's URL and time stamp, the given title and one element
  per report element, in order. An optional field that an element lacks degrades to
  absent: no naming signal gives no name, no role gives no role and no role hint, no href
  gives no href, a missing test id, label text, placeholder, CSS selector or XPath gives
  no hint of that strategy, and missing flags stay absent.
\<close>

theorem buildPageModel_fails_iff_url_malformed:
  "((\<exists>e. buildPageModel parseURL report title = Inl e) \<longleftrightarrow> parseURL (rr_url report) = None)
   \<and> (parseURL (rr_url report) = None \<longrightarrow>
        (\<forall>m. buildPageModel parseURL report title \<noteq> Inr m))
   \<and> (parseURL (rr_url report) \<noteq> None \<longrightarrow>
        (\<exists>m. buildPageModel parseURL report title = Inr m
           \<and> pm_url m = rr_url report \<and> pm_scannedAt m = rr_scannedAt report
           \<and> pm_title m = title
           \<and> length (pm_elements m) = length (rr_elements report)
           \<and> (\<forall>i < length (rr_elements report).
                 pm_elements m ! i = elementModel (rr_elements report ! i) i)))
   \<and> (el_accessibleName el = None \<and> el_labelText el = None \<and> el_ariaLabel el = None
        \<and> el_name el = None \<and> el_id el = None \<and> el_text el = None
      \<longrightarrow> em_name (elementModel el i) = None)
   \<and> (el_role el = None \<longrightarrow> em_role (elementModel el i) = None)
   \<and> (el_href el = None \<longrightarrow> em_href (elementModel el i) = None)
   \<and> (el_testId el = None \<longrightarrow>
        ''testId'' \<notin> set (map strategy (em_locators (elementModel el i))))
   \<and> (el_role el = None \<longrightarrow>
        ''role'' \<notin> set (map strategy (em_locators (elementModel el i))))
   \<and> (el_labelText el = None \<longrightarrow>
        ''label'' \<notin> set (map strategy (em_locators (elementModel el i))))
   \<and> (el_placeholder el = None \<longrightarrow>
        ''placeholder'' \<notin> set (map strategy (em_locators (elementModel el i))))
   \<and> (el_css el = None \<longrightarrow>
        ''css'' \<notin> set (map strategy (em_locators (elementModel el i))))
   \<and> (el_xpath el = None \<longrightarrow>
        ''xpath'' \<notin> set (map strategy (em_locators (elementModel el i))))
   \<and> (el_disabled el = None \<and> el_ariaDisabled el = None \<longrightarrow>
        em_flags (elementModel el i) = Some \<lparr> fl_disabled = None, fl_ariaDisabled = None \<rparr>)"
proof -
  have fail: "(\<exists>e. buildPageModel parseURL report title = Inl e) \<longleftrightarrow> parseURL (rr_url report) = None"
    by (rule buildPageModel_Inl_iff)
  have nopartial: "parseURL (rr_url report) = None \<longrightarrow>
        (\<forall>m. buildPageModel parseURL report title \<noteq> Inr m)"
    using fail by auto
  have ok: "parseURL (rr_url report) \<noteq> None \<longrightarrow>
        (\<exists>m. buildPageModel parseURL report title = Inr m
           \<and> pm_url m = rr_url report \<and> pm_scannedAt m = rr_scannedAt report
           \<and> pm_title m = title
           \<and> length (pm_elements m) = length (rr_elements report)
           \<and> (\<forall>i < length (rr_elements report).
                 pm_elements m ! i = elementModel (rr_elements report ! i) i))"
  proof
    assume "parseURL (rr_url report) \<noteq> None"
    then obtain u where "parseURL (rr_url report) = Some u" by auto
    from buildPageModel_Some [of parseURL report u title, OF this] show "\<exists>m. buildPageModel parseURL report title = Inr m
           \<and> pm_url m = rr_url report \<and> pm_scannedAt m = rr_scannedAt report
           \<and> pm_title m = title
           \<and> length (pm_elements m) = length (rr_elements report)
           \<and> (\<forall>i < length (rr_elements report).
                 pm_elements m ! i = elementModel (rr_elements report ! i) i)"
      by (simp add: nth_enumerate_eq)
  qed
  have name: "el_accessibleName el = None \<and> el_labelText el = None \<and> el_ariaLabel el = None
        \<and> el_name el = None \<and> el_id el = None \<and> el_text el = None
      \<longrightarrow> em_name (elementModel el i) = None"
    by (simp add: elementModel_def buildName_firstPresentName firstPresentName_absent)
  have role: "el_role el = None \<longrightarrow> em_role (elementModel el i) = None"
    and href: "el_href el = None \<longrightarrow> em_href (elementModel el i) = None"
    and flags: "el_disabled el = None \<and> el_ariaDisabled el = None \<longrightarrow>
        em_flags (elementModel el i) = Some \<lparr> fl_disabled = None, fl_ariaDisabled = None \<rparr>"
    by (simp_all add: elementModel_def)
  have loc: "em_locators (elementModel el i) = buildLocators el"
    by (simp add: elementModel_def)
  have none: "\<not> truthy None" by (simp add: truthy_def)
  have l1: "el_testId el = None \<longrightarrow> ''testId'' \<notin> set (map strategy (em_locators (elementModel el i)))"
    unfolding loc using locator_source [of _ el] none by (intro impI no_source_no_hint [of "el_testId el"]) auto
  have l2: "el_role el = None \<longrightarrow> ''role'' \<notin> set (map strategy (em_locators (elementModel el i)))"
    unfolding loc using locator_source [of _ el] none by (intro impI no_source_no_hint [of "el_role el"]) auto
  have l3: "el_labelText el = None \<longrightarrow> ''label'' \<notin> set (map strategy (em_locators (elementModel el i)))"
    unfolding loc using locator_source [of _ el] none by (intro impI no_source_no_hint [of "el_labelText el"]) auto
  have l4: "el_placeholder el = None \<longrightarrow> ''placeholder'' \<notin> set (map strategy (em_locators (elementModel el i)))"
    unfolding loc using locator_source [of _ el] none by (intro impI no_source_no_hint [of "el_placeholder el"]) auto
  have l5: "el_css el = None \<longrightarrow> ''css'' \<notin> set (map strategy (em_locators (elementModel el i)))"
    unfolding loc using locator_source [of _ el] none by (intro impI no_source_no_hint [of "el_css el"]) auto
  have l6: "el_xpath el = None \<longrightarrow> ''xpath'' \<notin> set (map strategy (em_locators (elementModel el i)))"
    unfolding loc using locator_source [of _ el] none by (intro impI no_source_no_hint [of "el_xpath el"]) auto
  from fail nopartial ok name role href l1 l2 l3 l4 l5 l6 flags show ?thesis
    by (intro conjI)
qed

theorem buildPageModel_fails_iff_url_malformed_witness:
  "plainURL ''https://www.example.com'' \<noteq> None
   \<and> (\<exists>m. buildPageModel plainURL
          \<lparr> rr_url = ''https://www.example.com'', rr_scannedAt = ''2026-01-18T00:00:00.000Z'',
            rr_counts = Map.empty, rr_elements = [bareElement ROther ''div''] \<rparr> None = Inr m
        \<and> length (pm_elements m) = 1
        \<and> pm_elements m ! 0 = elementModel (bareElement ROther ''div'') 0)
   \<and> em_name (elementModel (bareElement ROther ''div'') 0) = None
   \<and> em_role (elementModel (bareElement ROther ''div'') 0) = None
   \<and> em_href (elementModel (bareElement ROther ''div'') 0) = None
   \<and> ''css'' \<notin> set (map strategy (em_locators (elementModel (bareElement ROther ''div'') 0)))
   \<and> plainURL ''not a url'' = None
   \<and> (\<exists>e. buildPageModel plainURL
          \<lparr> rr_url = ''not a url'', rr_scannedAt = ''2026-01-18T00:00:00.000Z'',
            rr_counts = Map.empty, rr_elements = [bareElement ROther ''div''] \<rparr> None = Inl e)"
proof -
  let ?good = "\<lparr> rr_url = ''https://www.example.com'', rr_scannedAt = ''2026-01-18T00:00:00.000Z'',
            rr_counts = Map.empty, rr_elements = [bareElement ROther ''div''] \<rparr>"
  let ?bad = "\<lparr> rr_url = ''not a url'', rr_scannedAt = ''2026-01-18T00:00:00.000Z'',
            rr_counts = Map.empty, rr_elements = [bareElement ROther ''div''] \<rparr>"
  have g: "plainURL ''https://www.example.com'' \<noteq> None" by (simp add: plainURL_def)
  have b: "plainURL ''not a url'' = None" by (simp add: plainURL_def)
  have e: "el_accessibleName (bareElement ROther ''div'') = None"
    "el_labelText (bareElement ROther ''div'') = None"
    "el_ariaLabel (bareElement ROther ''div'') = None"
    "el_name (bareElement ROther ''div'') = None"
    "el_id (bareElement ROther ''div'') = None"
    "el_text (bareElement ROther ''div'') = None"
    "el_role (bareElement ROther ''div'') = None"
    "el_href (bareElement ROther ''div'') = None"
    "el_css (bareElement ROther ''div'') = None"
    by (simp_all add: bareElement_def)
  from buildPageModel_fails_iff_url_malformed [of plainURL ?good None "bareElement ROther ''div''" 0]
    g e
  have 1: "(\<exists>m. buildPageModel plainURL ?good None = Inr m
        \<and> length (pm_elements m) = 1
        \<and> pm_elements m ! 0 = elementModel (bareElement ROther ''div'') 0)
   \<and> em_name (elementModel (bareElement ROther ''div'') 0) = None
   \<and> em_role (elementModel (bareElement ROther ''div'') 0) = None
   \<and> em_href (elementModel (bareElement ROther ''div'') 0) = None
   \<and> ''css'' \<notin> set (map strategy (em_locators (elementModel (bareElement ROther ''div'') 0)))"
    by auto
  from buildPageModel_fails_iff_url_malformed [of plainURL ?bad None "bareElement ROther ''div''" 0]
    b
  have 2: "\<exists>e. buildPageModel plainURL ?bad None = Inl e"
    by simp
  from g b 1 2 show ?thesis by (intro conjI) simp_all
qed

lemma stripWww_prefix: "stripWww (''www.'' @ h) = h"
  by (simp add: stripWww_def)

text \<open>
  Claim C9. For every report whose URL is accepted, the domain of the model is the host
  name of the URL with one literal leading \<open>www.\<close> removed: the host name
  \<open>www.example.com\<close> gives \<open>example.com\<close>, and \<open>shop.example.co.uk\<close> is kept as it is.
\<close>

theorem domain_is_hostname_without_www:
  assumes "parseURL (rr_url report) = Some u"
  shows "\<exists>m. buildPageModel parseURL report title = Inr m
     \<and> pm_domain m = (if take 4 (hostname u) = ''www.'' then drop 4 (hostname u) else hostname u)
     \<and> (\<forall>h. hostname u = ''www.'' @ h \<longrightarrow> pm_domain m = h)
     \<and> (hostname u = ''www.example.com'' \<longrightarrow> pm_domain m = ''example.com'')
     \<and> (hostname u = ''shop.example.co.uk'' \<longrightarrow> pm_domain m = ''shop.example.co.uk'')"
  using buildPageModel_Some [of parseURL report u title, OF assms]
  by (auto simp: stripWww_def)

theorem domain_is_hostname_without_www_witness:
  "plainURL ''https://www.example.com/path'' = Some \<lparr> hostname = ''www.example.com'' \<rparr>
   \<and> (\<exists>m. buildPageModel plainURL
          \<lparr> rr_url = ''https://www.example.com/path'', rr_scannedAt = ''2026-01-18T00:00:00.000Z'',
            rr_counts = Map.empty, rr_elements = [] \<rparr> None = Inr m
        \<and> pm_domain m = ''example.com'')
   \<and> plainURL ''https://shop.example.co.uk'' = Some \<lparr> hostname = ''shop.example.co.uk'' \<rparr>
   \<and> (\<exists>m. buildPageModel plainURL
          \<lparr> rr_url = ''https://shop.example.co.uk'', rr_scannedAt = ''2026-01-18T00:00:00.000Z'',
            rr_counts = Map.empty, rr_elements = [] \<rparr> None = Inr m
        \<and> pm_domain m = ''shop.example.co.uk'')"
proof -
  have a: "plainURL ''https://www.example.com/path'' = Some \<lparr> hostname = ''www.example.com'' \<rparr>"
    by (simp add: plainURL_def)
  have b: "plainURL ''https://shop.example.co.uk'' = Some \<lparr> hostname = ''shop.example.co.uk'' \<rparr>"
    by (simp add: plainURL_def)
  from domain_is_hostname_without_www [of plainURL
      "\<lparr> rr_url = ''https://www.example.com/path'', rr_scannedAt = ''2026-01-18T00:00:00.000Z'',
            rr_counts = Map.empty, rr_elements = [] \<rparr>" "\<lparr> hostname = ''www.example.com'' \<rparr>" None] a
  have 1: "\<exists>m. buildPageModel plainURL
          \<lparr> rr_url = ''https://www.example.com/path'', rr_scannedAt = ''2026-01-18T00:00:00.000Z'',
            rr_counts = Map.empty, rr_elements = [] \<rparr> None = Inr m
        \<and> pm_domain m = ''example.com''"
    by auto
  from domain_is_hostname_without_www [of plainURL
      "\<lparr> rr_url = ''https://shop.example.co.uk'', rr_scannedAt = ''2026-01-18T00:00:00.000Z'',
            rr_counts = Map.empty, rr_elements = [] \<rparr>" "\<lparr> hostname = ''shop.example.co.uk'' \<rparr>" None] b
  have 2: "\<exists>m. buildPageModel plainURL
          \<lparr> rr_url = ''https://shop.example.co.uk'', rr_scannedAt = ''2026-01-18T00:00:00.000Z'',
            rr_counts = Map.empty, rr_elements = [] \<rparr> None = Inr m
        \<and> pm_domain m = ''shop.example.co.uk''"
    by auto
  from a b 1 2 show ?thesis by (intro conjI)
qed

section \<open>Decimal numerals\<close>

lemma digitChar_cases:
  assumes "d < (10::nat)"
  shows "d = 0 \<or> d = 1 \<or> d = 2 \<or> d = 3 \<or> d = 4 \<or> d = 5 \<or> d = 6 \<or> d = 7 \<or> d = 8 \<or> d = 9"
  using assms by presburger

lemma digitValue_digitChar: "d < 10 \<Longrightarrow> digitValue (digitChar d) = d"
  using digitChar_cases [of d] by (auto simp: digitValue_def digitChar_def)

lemma digitChar_not_hyphen: "d < 10 \<Longrightarrow> digitChar d \<noteq> CHR ''-''"
  using digitChar_cases [of d] by (auto simp: digitChar_def)

lemma decodeNumber_snoc: "decodeNumber (s @ [c]) = 10 * decodeNumber s + digitValue c"
  by (simp add: decodeNumber_def)

lemma decodeNumber_numberToString: "decodeNumber (numberToString n) = n"
proof (induction n rule: numberToString.induct)
  case (1 n)
  show ?case
  proof (cases "n < 10")
    case True
    then show ?thesis
      by (simp add: numberToString.simps [of n] decodeNumber_def digitValue_digitChar)
  next
    case False
    with 1 have "decodeNumber (numberToString (n div 10)) = n div 10" by simp
    with False show ?thesis
      by (simp add: numberToString.simps [of n] decodeNumber_snoc digitValue_digitChar)
  qed
qed

lemma numberToString_inj: "numberToString m = numberToString n \<Longrightarrow> m = n"
  by (metis decodeNumber_numberToString)

lemma numberToString_no_hyphen: "CHR ''-'' \<notin> set (numberToString n)"
proof (induction n rule: numberToString.induct)
  case (1 n)
  show ?case
  proof (cases "n < 10")
    case True
    then show ?thesis
      using digitChar_not_hyphen [of n] by (simp add: numberToString.simps [of n])
  next
    case False
    with 1 have "CHR ''-'' \<notin> set (numberToString (n div 10))" by simp
    with False show ?thesis
      using digitChar_not_hyphen [of "n mod 10"] by (simp add: numberToString.simps [of n])
  qed
qed

lemma afterLastHyphen_append:
  assumes "CHR ''-'' \<notin> set d"
  shows "afterLastHyphen (p @ ''-'' @ d) = d"
proof -
  have "takeWhile (\<lambda>c. c \<noteq> CHR ''-'') (rev d @ CHR ''-'' # rev p) = rev d"
    using assms by (subst takeWhile_append2) auto
  then show ?thesis by (simp add: afterLastHyphen_def)
qed

section \<open>Identifiers\<close>

lemma stableElementId_index:
  "decodeNumber (afterLastHyphen (stableElementId el index)) = index"
proof -
  obtain p where "stableElementId el index = p @ ''-'' @ numberToString index"
    by (simp add: stableElementId_def Let_def)
  then show ?thesis
    by (simp only: afterLastHyphen_append [OF numberToString_no_hyphen] decodeNumber_numberToString)
qed

lemma em_id_elementModel: "em_id (elementModel el index) = stableElementId el index"
  by (simp add: elementModel_def)

lemma ids_distinct:
  "distinct (map em_id (map (\<lambda>(index, el). elementModel el index) (enumerate 0 els)))"
proof -
  let ?ms = "map (\<lambda>(index, el). elementModel el index) (enumerate 0 els)"
  have "map (\<lambda>s. decodeNumber (afterLastHyphen s)) (map em_id ?ms) = map fst (enumerate 0 els)"
    by (simp add: comp_def split_def em_id_elementModel stableElementId_index)
  also have "\<dots> = [0..<length els]" by simp
  finally have "distinct (map (\<lambda>s. decodeNumber (afterLastHyphen s)) (map em_id ?ms))" by simp
  then show ?thesis unfolding distinct_map [of "\<lambda>s. decodeNumber (afterLastHyphen s)"] by (rule conjunct1)
qed

lemma orElse_firstAvailable:
  "orElse a (firstAvailable vs) = firstAvailable (a # vs)"
  by (simp add: orElse_def)

lemma baseOf_firstAvailable:
  "baseOf el index =
     firstAvailable [el_testId el, el_id el, el_name el, el_ariaLabel el, el_text el,
                     Some (el_tagName el), Some (''element-'' @ numberToString index)]"
proof -
  have "baseOf el index =
      orElse (el_testId el) (orElse (el_id el) (orElse (el_name el) (orElse (el_ariaLabel el)
        (orElse (el_text el) (orElse (Some (el_tagName el))
          (Some (''element-'' @ numberToString index)))))))"
    by (simp only: baseOf_def orElse_assoc)
  also have "\<dots> = firstAvailable [el_testId el, el_id el, el_name el, el_ariaLabel el, el_text el,
                     Some (el_tagName el), Some (''element-'' @ numberToString index)]"
    by (simp add: orElse_def truthy_def)
  finally show ?thesis .
qed

lemma firstAvailable_append:
  "firstAvailable vs = Some b \<Longrightarrow> firstAvailable (vs @ ws) = Some b"
  by (induction vs) (auto simp: truthy_def)

lemma length_slugOf: "length (slugOf b) \<le> 50"
  by (simp add: slugOf_def slice0_def)

lemma firstAvailable_append_None:
  "firstAvailable vs = None \<Longrightarrow> firstAvailable (vs @ ws) = firstAvailable ws"
  by (induction vs) (auto simp: truthy_def split: if_splits option.splits)

lemma stringOf_baseOf: "stringOf (baseOf el index) = idBase el index"
proof (cases "firstAvailable [el_testId el, el_id el, el_name el, el_ariaLabel el, el_text el,
                Some (el_tagName el)]")
  case None
  from firstAvailable_append_None [OF None, of "[Some (''element-'' @ numberToString index)]"]
  have "baseOf el index = Some (''element-'' @ numberToString index)"
    by (simp only: baseOf_firstAvailable append.simps) (simp add: truthy_def)
  with None show ?thesis by (simp add: idBase_def stringOf_def)
next
  case (Some b)
  from firstAvailable_append [OF Some, of "[Some (''element-'' @ numberToString index)]"]
  have "baseOf el index = Some b" by (simp only: baseOf_firstAvailable append.simps)
  with Some show ?thesis by (simp add: idBase_def stringOf_def)
qed

lemma stableElementId_spec:
  "stableElementId el index =
     typeName (el_type el) @ ''-''
     @ (if slugSpec (idBase el index) = [] then ''unnamed'' else slugSpec (idBase el index))
     @ ''-'' @ numberToString index"
  by (simp add: stableElementId_def Let_def stringOf_baseOf slugOf_slugSpec)

text \<open>
  Claim C5, as amended. For every report and position \<open>i\<close>, the identifier of the
  \<open>i\<close>-th model element is the type, a hyphen, the slug, a hyphen and \<open>i\<close> in decimal.
  The slug is taken from the first available of test id, DOM id, name attribute,
  aria-label, visible text and tag name of the \<open>i\<close>-th element, or from the text
  \<open>element-\<close> followed by \<open>i\<close> when none of them is available: that base,
  whitespace-normalized, lower-cased, with every run of characters other than the letters
  a to z and the digits turned into one hyphen, without leading and trailing hyphens, cut
  to 50 characters; \<open>unnamed\<close> stands in for an empty slug. The identifiers of one model
  are pairwise distinct.
\<close>

theorem ids_follow_the_scheme_with_fallback:
  assumes "buildPageModel parseURL report title = Inr m"
  shows "(\<forall>i < length (rr_elements report).
            em_id (pm_elements m ! i) =
              typeName (el_type (rr_elements report ! i)) @ ''-''
              @ (if slugSpec (idBase (rr_elements report ! i) i) = [] then ''unnamed''
                 else slugSpec (idBase (rr_elements report ! i) i))
              @ ''-'' @ numberToString i)
       \<and> distinct (map em_id (pm_elements m))"
proof -
  from assms obtain u where u: "parseURL (rr_url report) = Some u"
    by (auto simp: buildPageModel_def domainFromUrl_def split: option.splits)
  from buildPageModel_Some [of parseURL report u title, OF u] assms
  have m: "pm_elements m = map (\<lambda>(index, el). elementModel el index) (enumerate 0 (rr_elements report))"
    by simp
  have d: "distinct (map em_id (pm_elements m))" unfolding m by (rule ids_distinct)
  have s: "em_id (pm_elements m ! i) =
              typeName (el_type (rr_elements report ! i)) @ ''-''
              @ (if slugSpec (idBase (rr_elements report ! i) i) = [] then ''unnamed''
                 else slugSpec (idBase (rr_elements report ! i) i))
              @ ''-'' @ numberToString i"
    if i: "i < length (rr_elements report)" for i
  proof -
    from i have "pm_elements m ! i = elementModel (rr_elements report ! i) i"
      by (simp add: m nth_enumerate_eq)
    then show ?thesis by (simp only: em_id_elementModel stableElementId_spec)
  qed
  from d s show ?thesis by blast
qed

lemma slugSpec_examples:
  "slugSpec ''Save'' = ''save''"
  "slugSpec ''  !!! '' = []"
  "slugSpec ''  Hello,   World! '' = ''hello-world''"
  "slugSpec ''element-3'' = ''element-3''"
  by code_simp+

lemma numberToString_examples:
  "numberToString 0 = ''0''" "numberToString (Suc 0) = ''1''" "numberToString 2 = ''2''"
  "numberToString 3 = ''3''" "numberToString 1203 = ''1203''"
  by code_simp+

theorem ids_follow_the_scheme_with_fallback_witness:
  "\<exists>m. buildPageModel plainURL
          \<lparr> rr_url = ''https://www.example.com'', rr_scannedAt = ''2026-01-18T00:00:00.000Z'',
            rr_counts = Map.empty,
            rr_elements = [(bareElement RButton ''button'') \<lparr> el_text := Some ''Save'' \<rparr>,
                           (bareElement RButton ''button'') \<lparr> el_text := Some ''Save'' \<rparr>,
                           (bareElement ROther ''div'') \<lparr> el_testId := Some ''  !!! '' \<rparr>,
                           bareElement ROther []] \<rparr>
          None = Inr m
      \<and> em_id (pm_elements m ! 0) = ''button-save-0''
      \<and> em_id (pm_elements m ! 1) = ''button-save-1''
      \<and> em_id (pm_elements m ! 2) = ''other-unnamed-2''
      \<and> em_id (pm_elements m ! 3) = ''other-element-3-3''
      \<and> distinct (map em_id (pm_elements m))"
proof -
  let ?r = "\<lparr> rr_url = ''https://www.example.com'', rr_scannedAt = ''2026-01-18T00:00:00.000Z'',
            rr_counts = Map.empty,
            rr_elements = [(bareElement RButton ''button'') \<lparr> el_text := Some ''Save'' \<rparr>,
                           (bareElement RButton ''button'') \<lparr> el_text := Some ''Save'' \<rparr>,
                           (bareElement ROther ''div'') \<lparr> el_testId := Some ''  !!! '' \<rparr>,
                           bareElement ROther []] \<rparr>"
  have "plainURL (rr_url ?r) = Some \<lparr> hostname = ''www.example.com'' \<rparr>"
    by (simp add: plainURL_def)
  from buildPageModel_Some [of plainURL ?r _ None, OF this]
  obtain m where h: "buildPageModel plainURL ?r None = Inr m" by blast
  note t = ids_follow_the_scheme_with_fallback [OF h]
  from t have d: "distinct (map em_id (pm_elements m))" by (rule conjunct2)
  note a = t [THEN conjunct1, rule_format]
  from a [of 0] have 0: "em_id (pm_elements m ! 0) = ''button-save-0''"
    by (simp add: bareElement_def idBase_def truthy_def slugSpec_examples numberToString_examples)
  from a [of 1] have 1: "em_id (pm_elements m ! 1) = ''button-save-1''"
    by (simp add: bareElement_def idBase_def truthy_def slugSpec_examples numberToString_examples)
  from a [of 2] have 2: "em_id (pm_elements m ! 2) = ''other-unnamed-2''"
    by (simp add: bareElement_def idBase_def truthy_def slugSpec_examples numberToString_examples)
  from a [of 3] have 3: "em_id (pm_elements m ! 3) = ''other-element-3-3''"
    by (simp add: bareElement_def idBase_def truthy_def slugSpec_examples numberToString_examples)
  from h 0 1 2 3 d show ?thesis by blast
qed

text \<open>
  Claim C5 as stated fails: an element with no test id, DOM id, name, aria-label and text
  and an empty tag name has none of the six signals, yet its identifier is not built on
  \<open>unnamed\<close> but on the seventh base \<open>element-0\<close>.
\<close>

theorem no_signal_id_uses_element_index:
  "firstAvailable
     [el_testId (bareElement ROther []), el_id (bareElement ROther []),
      el_name (bareElement ROther []), el_ariaLabel (bareElement ROther []),
      el_text (bareElement ROther []), Some (el_tagName (bareElement ROther []))] = None
   \<and> buildPageModel plainURL
       \<lparr> rr_url = ''https://www.example.com'', rr_scannedAt = ''2026-01-18T00:00:00.000Z'',
         rr_counts = Map.empty, rr_elements = [bareElement ROther []] \<rparr> None =
     Inr \<lparr> pm_url = ''https://www.example.com'', pm_domain = ''example.com'',
           pm_scannedAt = ''2026-01-18T00:00:00.000Z'', pm_title = None,
           pm_elements =
             [\<lparr> em_id = ''other-element-0-0'', em_kind = KOther, em_name = None,
                em_tagName = Some [], em_role = None, em_href = None, em_locators = [],
                em_flags = Some \<lparr> fl_disabled = None, fl_ariaDisabled = None \<rparr> \<rparr>] \<rparr>"
proof -
  have f: "firstAvailable
     [el_testId (bareElement ROther []), el_id (bareElement ROther []),
      el_name (bareElement ROther []), el_ariaLabel (bareElement ROther []),
      el_text (bareElement ROther []), Some (el_tagName (bareElement ROther []))] = None"
    by (simp add: bareElement_def truthy_def)
  have i: "stableElementId (bareElement ROther []) 0 = ''other-element-0-0''"
    by code_simp
  have n: "buildName (bareElement ROther []) = None"
    by (simp add: buildName_firstPresentName firstPresentName_absent bareElement_def)
  have l: "buildLocators (bareElement ROther []) = []"
    by (simp add: buildLocators_def pushIf_def bareElement_def)
  have e: "elementModel (bareElement ROther []) 0 =
      \<lparr> em_id = ''other-element-0-0'', em_kind = KOther, em_name = None,
        em_tagName = Some [], em_role = None, em_href = None, em_locators = [],
        em_flags = Some \<lparr> fl_disabled = None, fl_ariaDisabled = None \<rparr> \<rparr>"
    unfolding elementModel_def i n l by (simp add: bareElement_def)
  have u: "plainURL ''https://www.example.com'' = Some \<lparr> hostname = ''www.example.com'' \<rparr>"
    by (simp add: plainURL_def)
  have "buildPageModel plainURL
       \<lparr> rr_url = ''https://www.example.com'', rr_scannedAt = ''2026-01-18T00:00:00.000Z'',
         rr_counts = Map.empty, rr_elements = [bareElement ROther []] \<rparr> None =
     Inr \<lparr> pm_url = ''https://www.example.com'', pm_domain = ''example.com'',
           pm_scannedAt = ''2026-01-18T00:00:00.000Z'', pm_title = None,
           pm_elements = [elementModel (bareElement ROther []) 0] \<rparr>"
    by (simp add: buildPageModel_def domainFromUrl_def u stripWww_def)
  with f show ?thesis by (simp only: e)
qed

section \<open>Counts\<close>

lemma UNIV_types: "(UNIV :: ReconElementType set) = {RButton, RLink, RInput, RSelect, RTextarea, ROther}"
proof -
  have "t \<in> {RButton, RLink, RInput, RSelect, RTextarea, ROther}" for t
    by (cases t) simp_all
  then show ?thesis by blast
qed

lemma finite_types: "finite (UNIV :: ReconElementType set)"
  by (simp add: UNIV_types)

lemma countOr0_fold:
  "countOr0 (fold (\<lambda>e acc. acc(el_type e \<mapsto> countOr0 acc (el_type e) + 1)) es acc) k =
     countOr0 acc k + length (filter (\<lambda>e. el_type e = k) es)"
  by (induction es arbitrary: acc) (auto simp: countOr0_def)

lemma countOr0_tally: "countOr0 (tally es) k = length (filter (\<lambda>e. el_type e = k) es)"
  by (simp only: tally_def countOr0_fold) (simp add: countOr0_def)

lemma fillZeros_apply: "fillZeros c k = Some (countOr0 c k)"
  by (cases k) (simp_all add: fillZeros_def allTypes_def countOr0_def)

lemma sum_type_counts:
  "(\<Sum>k \<in> UNIV. length (filter (\<lambda>e. el_type e = k) es)) = length es"
proof (induction es)
  case Nil
  show ?case by simp
next
  case (Cons e es)
  have "(\<Sum>k \<in> UNIV. length (filter (\<lambda>e. el_type e = k) (e # es))) =
      (\<Sum>k \<in> UNIV. (if k = el_type e then 1 else 0) + length (filter (\<lambda>e. el_type e = k) es))"
    by (intro sum.cong) auto
  also have "\<dots> = (\<Sum>k \<in> UNIV. if k = el_type e then 1 else 0)
      + (\<Sum>k \<in> UNIV. length (filter (\<lambda>e. el_type e = k) es))"
    by (rule sum.distrib)
  also have "(\<Sum>k \<in> (UNIV :: ReconElementType set). if k = el_type e then 1 else 0) = (1::nat)"
    by (simp add: finite_types)
  finally show ?case using Cons by simp
qed

lemma scan_counts:
  "rr_counts (scanUrl url scannedAt nodes) k =
     Some (length (filter (\<lambda>e. el_type e = k) (rr_elements (scanUrl url scannedAt nodes))))"
  by (simp add: scanUrl_def Let_def fillZeros_apply countOr0_tally)

text \<open>
  Claim C2. In every report that a scan produces, the counts have exactly the six types
  as keys, the counts add up to the number of elements of the report, and a type that no
  element has is counted as zero.
\<close>

theorem counts_sum_to_length_and_have_all_keys:
  "dom (rr_counts (scanUrl url scannedAt nodes)) = {RButton, RLink, RInput, RSelect, RTextarea, ROther}
   \<and> (\<Sum>k \<in> dom (rr_counts (scanUrl url scannedAt nodes)).
          the (rr_counts (scanUrl url scannedAt nodes) k)) =
       length (rr_elements (scanUrl url scannedAt nodes))
   \<and> (\<forall>k. k \<notin> el_type ` set (rr_elements (scanUrl url scannedAt nodes))
          \<longrightarrow> rr_counts (scanUrl url scannedAt nodes) k = Some 0)"
proof -
  let ?r = "scanUrl url scannedAt nodes"
  have dom: "dom (rr_counts ?r) = UNIV" by (auto simp: scan_counts)
  have "(\<Sum>k \<in> dom (rr_counts ?r). the (rr_counts ?r k)) =
      (\<Sum>k \<in> UNIV. length (filter (\<lambda>e. el_type e = k) (rr_elements ?r)))"
    unfolding dom by (rule sum.cong) (simp_all add: scan_counts)
  then have sum: "(\<Sum>k \<in> dom (rr_counts ?r). the (rr_counts ?r k)) = length (rr_elements ?r)"
    by (simp only: sum_type_counts)
  have zero: "rr_counts ?r k = Some 0" if "k \<notin> el_type ` set (rr_elements ?r)" for k
  proof -
    from that have "filter (\<lambda>e. el_type e = k) (rr_elements ?r) = []"
      by (auto simp: filter_empty_conv)
    then show ?thesis by (simp add: scan_counts)
  qed
  from dom sum zero show ?thesis by (simp only: UNIV_types) blast
qed

theorem counts_sum_to_length_and_have_all_keys_witness:
  "map (rr_counts (scanUrl ''https://example.com/'' ''2026-01-18T00:00:00.000Z''
          [plainNode ''BUTTON'' [] ''Save'', plainNode ''INPUT'' [(''type'', ''text'')] []]))
     [RButton, RLink, RInput, RSelect, RTextarea, ROther] =
   [Some 1, Some 0, Some 1, Some 0, Some 0, Some 0]"
proof -
  let ?r = "scanUrl ''https://example.com/'' ''2026-01-18T00:00:00.000Z''
          [plainNode ''BUTTON'' [] ''Save'', plainNode ''INPUT'' [(''type'', ''text'')] []]"
  have l: "toLowerCase ''BUTTON'' = ''button''" "toLowerCase ''INPUT'' = ''input''"
    "toLowerCase ''button'' = ''button''" "toLowerCase ''input'' = ''input''"
    "toLowerCase ''text'' = ''text''"
    by code_simp+
  have t: "map el_type (rr_elements ?r) = [RButton, RInput]"
    by (simp add: scanUrl_def Let_def reconElementOf_def normalizeType_def rawOf_def plainNode_def
        l getAttribute_def orUndefined_def orElse_def truthy_def
        stringOf_def INTERACTIVE_ROLES_def isDisabled_def)
  then have s: "el_type ` set (rr_elements ?r) = {RButton, RInput}"
    by (metis list.set_map list.simps(15) empty_set)
  note c = counts_sum_to_length_and_have_all_keys
    [of "''https://example.com/''" "''2026-01-18T00:00:00.000Z''"
        "[plainNode ''BUTTON'' [] ''Save'', plainNode ''INPUT'' [(''type'', ''text'')] []]"]
  from c s have z: "rr_counts ?r RLink = Some 0" "rr_counts ?r RSelect = Some 0"
    "rr_counts ?r RTextarea = Some 0" "rr_counts ?r ROther = Some 0"
    by auto
  have f: "length (filter (\<lambda>e. el_type e = k) es) = length (filter (\<lambda>t. t = k) (map el_type es))"
    for k and es :: "ReconElement list"
    by (induction es) auto
  have b: "rr_counts ?r RButton = Some 1" "rr_counts ?r RInput = Some 1"
    unfolding scan_counts by (simp_all only: f t) simp_all
  from z b show ?thesis by simp
qed

section \<open>The scanner's name and type\<close>

lemma toLowerCase_examples:
  "toLowerCase ''text'' = ''text''" "toLowerCase ''INPUT'' = ''input''"
  "toLowerCase ''input'' = ''input''" "toLowerCase ''BUTTON'' = ''button''"
  "toLowerCase ''Submit'' = ''submit''" "toLowerCase ''SUBMIT'' = ''submit''"
  "toLowerCase ''submit'' = ''submit''"
  by code_simp+

lemma toLowerCase_Nil: "toLowerCase [] = []"
  by (simp add: toLowerCase_def)

lemma typeOf_input:
  "toLowerCase (stringOf (orElse (getAttribute e ''type'') (Some ''text''))) \<in> {''submit'', ''button'', ''reset''}
   \<longleftrightarrow> (case getAttribute e ''type'' of
          None \<Rightarrow> False
        | Some t \<Rightarrow> toLowerCase t \<in> {''submit'', ''button'', ''reset''})"
  by (cases "getAttribute e ''type''")
     (auto simp: orElse_def truthy_def stringOf_def toLowerCase_examples toLowerCase_Nil)

lemma getText_truthy: "getText e \<noteq> None \<Longrightarrow> truthy (getText e)"
  by (auto simp: getText_def truthy_def slice0_def Let_def split: if_splits)

lemma firstAvailable_last: "firstAvailable [getText e] = getText e"
  using getText_truthy [of e] by (cases "getText e") (auto simp: truthy_def)

lemma accessibleName_firstAvailable:
  "accessibleName e =
     firstAvailable [getAttribute e ''aria-label'', findAssociatedLabelText e,
                     (if isInputButton e then getAttribute e ''value'' else None),
                     getAttribute e ''alt'', getText e]"
proof -
  let ?t = "toLowerCase (stringOf (orElse (getAttribute e ''type'') (Some ''text'')))"
  have v: "(if toLowerCase (nd_tagName e) = ''input''
            then if ?t = ''submit'' \<or> ?t = ''button'' \<or> ?t = ''reset''
                 then getAttribute e ''value'' else None
            else None) = (if isInputButton e then getAttribute e ''value'' else None)"
    using typeOf_input [of e] by (simp add: isInputButton_def)
  have "accessibleName e =
      (if truthy (getAttribute e ''aria-label'') then getAttribute e ''aria-label''
       else if truthy (findAssociatedLabelText e) then findAssociatedLabelText e
       else if truthy (if isInputButton e then getAttribute e ''value'' else None)
            then (if isInputButton e then getAttribute e ''value'' else None)
       else if truthy (getAttribute e ''alt'') then getAttribute e ''alt''
       else getText e)"
    unfolding accessibleName_def Let_def v by (rule refl)
  also have "\<dots> = firstAvailable [getAttribute e ''aria-label'', findAssociatedLabelText e,
                     (if isInputButton e then getAttribute e ''value'' else None),
                     getAttribute e ''alt'', getText e]"
    using firstAvailable_last [of e] by simp
  finally show ?thesis .
qed

lemma trim_Nil_iff: "trim c = [] \<longleftrightarrow> (\<forall>x \<in> set c. isSpace x)"
  using normalizeWhitespace_Nil_iff [of c]
  by (simp only: normalizeWhitespace_def replaceRuns_Nil_iff)

text \<open>
  The visible text and the label text in terms of words: absent when the text has no
  character other than white space, else its words with single spaces between them, cut
  to 200 characters.
\<close>

lemma labelTextOf_words:
  "labelTextOf lbl =
     (case lbl of
        None \<Rightarrow> None
      | Some c \<Rightarrow>
          if \<exists>x \<in> set c. \<not> isSpace x
          then Some (take 200 (joinChar (CHR '' '') (tokens isSpace c))) else None)"
proof (cases lbl)
  case None
  then show ?thesis by (simp add: labelTextOf_def)
next
  case (Some c)
  have "replaceRuns isSpace (CHR '' '') (trim c) = joinChar (CHR '' '') (tokens isSpace c)"
    by (simp only: normalizeWhitespace_def [symmetric] normalizeWhitespace_tokens)
  then show ?thesis
    unfolding Some using trim_Nil_iff [of c] by (simp add: labelTextOf_def Let_def slice0_def)
qed

lemma getText_words:
  "getText e =
     (let txt = (case nd_textContent e of None \<Rightarrow> [] | Some t \<Rightarrow> t)
      in if \<exists>x \<in> set txt. \<not> isSpace x
         then Some (take 200 (joinChar (CHR '' '') (tokens isSpace txt))) else None)"
proof -
  let ?txt = "case nd_textContent e of None \<Rightarrow> [] | Some t \<Rightarrow> t"
  have t: "stringOf (orElse (nd_textContent e) (Some [])) = ?txt"
    by (cases "nd_textContent e") (simp_all add: orElse_def truthy_def stringOf_def)
  have "replaceRuns isSpace (CHR '' '') (trim ?txt) = joinChar (CHR '' '') (tokens isSpace ?txt)"
    by (simp only: normalizeWhitespace_def [symmetric] normalizeWhitespace_tokens)
  moreover have "replaceRuns isSpace (CHR '' '') (trim ?txt) = [] \<longleftrightarrow> (\<forall>x \<in> set ?txt. isSpace x)"
    by (simp only: replaceRuns_Nil_iff trim_Nil_iff)
  ultimately show ?thesis
    unfolding getText_def t Let_def slice0_def by auto
qed

text \<open>
  In the documented revision an input node of type submit, button or reset with no
  aria-label and no associated label but a non-empty value attribute gets that value,
  whatever its alt attribute and text are.
\<close>

lemma accessibleName_value_step:
  assumes "isInputButton e" "\<not> truthy (getAttribute e ''aria-label'')"
    "\<not> truthy (findAssociatedLabelText e)" "getAttribute e ''value'' = Some v" "v \<noteq> []"
  shows "accessibleName e = Some v"
  using assms by (simp add: accessibleName_firstAvailable truthy_def)

text \<open>
  Claim C6. The claim holds of the documented revision of the scanner and fails on the
  earlier one, which has no value step. For an input of type submit with the value Go,
  the alt text Send, the text content \<open>text\<close> and neither aria-label nor label, the
  documented \<open>accessibleName\<close> returns the value Go, as the claim says, and the earlier
  one returns the alt text Send.
\<close>

theorem accessibleName_early_skips_value:
  "accessibleName
     (plainNode ''INPUT'' [(''type'', ''submit''), (''value'', ''Go''), (''alt'', ''Send'')] ''text'')
     = Some ''Go''
   \<and> accessibleName_early
     (plainNode ''INPUT'' [(''type'', ''submit''), (''value'', ''Go''), (''alt'', ''Send'')] ''text'')
     = Some ''Send''"
proof -
  let ?n = "plainNode ''INPUT'' [(''type'', ''submit''), (''value'', ''Go''), (''alt'', ''Send'')] ''text''"
  have b: "isInputButton ?n"
    by (simp add: isInputButton_def plainNode_def getAttribute_def toLowerCase_examples)
  have a: "\<not> truthy (getAttribute ?n ''aria-label'')"
    by (simp add: plainNode_def getAttribute_def truthy_def)
  have l: "\<not> truthy (findAssociatedLabelText ?n)"
    by (simp add: findAssociatedLabelText_def labelTextOf_def plainNode_def getAttribute_def truthy_def)
  have v: "getAttribute ?n ''value'' = Some ''Go''"
    by (simp add: plainNode_def getAttribute_def)
  have 1: "accessibleName ?n = Some ''Go''"
    using b a l v by (rule accessibleName_value_step) simp
  have 2: "accessibleName_early ?n = Some ''Send''"
    by (simp add: accessibleName_early_def findAssociatedLabelText_def labelTextOf_def plainNode_def
        getAttribute_def truthy_def orElse_def orUndefined_def)
  from 1 2 show ?thesis by (rule conjI)
qed






text \<open>
  On an input of type submit the earlier revision reads the input type and does not use
  it.
\<close>

lemma normalizeType_early_ignores_input_type:
  "normalizeType_early (rawOf (plainNode ''INPUT'' [(''type'', ''SUBMIT'')] [])) = RInput"
proof -
  have "raw_role (rawOf (plainNode ''INPUT'' [(''type'', ''SUBMIT'')] [])) = None"
    "raw_tag (rawOf (plainNode ''INPUT'' [(''type'', ''SUBMIT'')] [])) = ''input''"
    by (simp_all add: rawOf_def plainNode_def Let_def split_def getAttribute_def orUndefined_def
        truthy_def toLowerCase_examples)
  then show ?thesis
    by (simp add: normalizeType_early_def Let_def truthy_def toLowerCase_examples)
qed

section \<open>Disabled flags\<close>

lemma reconElementOf_flags:
  "el_disabled (reconElementOf r) = None" "el_ariaDisabled (reconElementOf r) = None"
  by (simp_all add: reconElementOf_def)

lemma elementModel_flags:
  "em_flags (elementModel el index) =
     Some \<lparr> fl_disabled = el_disabled el, fl_ariaDisabled = el_ariaDisabled el \<rparr>"
  by (simp add: elementModel_def)

text \<open>
  Claim C8. The page-context code computes the native and the ARIA disabled flag of a
  node and stores both in the raw record, but the conversion of raw records to report
  elements copies neither. For a button with \<open>disabled\<close> and \<open>aria-disabled="true"\<close> both
  flags are true in the raw record and absent in the report element, and the builder,
  which carries the flags of the report element over unchanged, yields absent flags.
\<close>

theorem scan_drops_disabled_flags:
  "isDisabled (plainNode ''BUTTON'' [(''disabled'', []), (''aria-disabled'', ''true'')] ''Save'')
     = (True, True)
   \<and> raw_disabled (rawOf (plainNode ''BUTTON'' [(''disabled'', []), (''aria-disabled'', ''true'')] ''Save''))
     = Some True
   \<and> raw_ariaDisabled (rawOf (plainNode ''BUTTON'' [(''disabled'', []), (''aria-disabled'', ''true'')] ''Save''))
     = Some True
   \<and> map (\<lambda>el. (el_disabled el, el_ariaDisabled el))
       (rr_elements (scanUrl ''https://example.com/'' ''2026-01-18T00:00:00.000Z''
          [plainNode ''BUTTON'' [(''disabled'', []), (''aria-disabled'', ''true'')] ''Save'']))
     = [(None, None)]
   \<and> em_flags (elementModel (reconElementOf (rawOf
         (plainNode ''BUTTON'' [(''disabled'', []), (''aria-disabled'', ''true'')] ''Save''))) 0)
     = Some \<lparr> fl_disabled = None, fl_ariaDisabled = None \<rparr>"
proof -
  let ?n = "plainNode ''BUTTON'' [(''disabled'', []), (''aria-disabled'', ''true'')] ''Save''"
  have d: "isDisabled ?n = (True, True)"
    by (simp add: isDisabled_def plainNode_def getAttribute_def)
  then have r: "raw_disabled (rawOf ?n) = Some True" "raw_ariaDisabled (rawOf ?n) = Some True"
    by (simp_all add: rawOf_def Let_def)
  have s: "map (\<lambda>el. (el_disabled el, el_ariaDisabled el))
       (rr_elements (scanUrl ''https://example.com/'' ''2026-01-18T00:00:00.000Z'' [?n]))
     = [(None, None)]"
    by (simp add: scanUrl_def Let_def reconElementOf_flags)
  have m: "em_flags (elementModel (reconElementOf (rawOf ?n)) 0)
     = Some \<lparr> fl_disabled = None, fl_ariaDisabled = None \<rparr>"
    by (simp add: elementModel_flags reconElementOf_flags)
  from d r s m show ?thesis by (intro conjI)
qed

end
